theory Spec2Isabelle
  imports Complex_Main "HOL-Library.Word"
begin

section \<open>The voice agent client: data model\<close>

text \<open>
  A shallow embedding of the browser client \<open>complete-voice-agent.js\<close>: the module-level
  variables become the fields of one record, every callback (button click, channel
  event, inbound message, timer expiry, audio block) becomes a function from state to
  state, and the browser's own choices (what the \<open>AudioContext\<close> constructor returns,
  when a timer or a promise is run, how the clocks advance) are inputs of the model.
  DOM painting (\<open>updateButtonState\<close>, the chat bubbles, the CSS classes) is a function
  of the fields below and is left out; \<open>updateStatus\<close> is kept as a log of the texts
  it displayed. Times are real numbers: the playhead arithmetic is modelled exactly,
  without the rounding of IEEE doubles.
\<close>

datatype phase = Idle | Listening | Processing | Speaking | Ending

datatype ready_state = CONNECTING | OPEN | CLOSING | CLOSED

datatype ctx_state = Suspended | Running | Closed

text \<open>
  An output \<open>AudioContext\<close>: its state, its clock, the buffer sources started on it as
  pairs (start time, duration), and the continuations waiting on a \<open>resume()\<close> promise
  (\<open>thenProcess\<close> counts the pending \<open>.then(() => processBufferedChunks())\<close>).
\<close>

record playback_ctx =
  ctxState :: ctx_state
  currentTime :: real
  started :: "(real \<times> real) list"
  resumeRequested :: bool
  thenProcess :: nat

datatype sender = User | AI

record turn =
  sender :: sender
  message :: string
  timestamp :: nat

text \<open>
  The texts passed to \<open>updateStatus\<close>, one constructor for each literal (the pictograph
  in front of each text is left out): \<open>StatusConnecting\<close> is "Connecting to AI...",
  \<open>StatusListening\<close> "Listening... Speak now!", \<open>StatusRequestingMic\<close> "Requesting
  microphone access...", \<open>StatusConnectionLost\<close> "Connection lost",
  \<open>StatusConnectionError\<close> "Connection error", \<open>StatusMicDenied\<close> "Microphone access
  denied", \<open>StatusConnected\<close> "Connected! Start speaking...", \<open>StatusSessionReady\<close>
  "Session ready - start speaking!", \<open>StatusKeepSpeaking\<close> "Listening... (keep
  speaking)", \<open>StatusProcessing\<close> "Processing your message...", \<open>StatusThinking\<close> "AI
  is thinking about: ..." with the first 30 characters of the user message,
  \<open>StatusSpeaking\<close> "AI is speaking...", \<open>StatusFinishing\<close> "AI finishing response...",
  \<open>StatusReady\<close> "Ready for your next message... (speak anytime)", \<open>StatusGoodbye\<close>
  "AI saying goodbye...", \<open>StatusEnded\<close> "Conversation ended. Click to start a new
  one!", \<open>StatusThankYou\<close> "Thank you for the conversation!", and \<open>StatusError\<close> "Error:
  ..." with the message of the server.
\<close>

datatype status =
    StatusConnecting
  | StatusListening
  | StatusRequestingMic
  | StatusConnectionLost
  | StatusConnectionError
  | StatusMicDenied
  | StatusConnected
  | StatusSessionReady
  | StatusKeepSpeaking
  | StatusProcessing
  | StatusThinking string
  | StatusSpeaking
  | StatusFinishing
  | StatusReady
  | StatusGoodbye
  | StatusEnded
  | StatusThankYou
  | StatusError string

datatype timer_kind = SafetyTimeout | DrainTimeout | GoodbyeTimeout

text \<open>
  A \<open>setTimeout\<close> registration: the callback, the earliest wall-clock time (ms) at which
  it may run, and whether it is still to run. No timer of the program is ever cleared.
\<close>

record timer =
  kind :: timer_kind
  due :: nat
  pending :: bool

datatype outbound = UserApiKeys | EndConversation | Frame "16 word list"

text \<open>
  Inbound messages by their \<open>type\<close> tag. The \<open>audio_data\<close> of an audio chunk is the byte
  string that \<open>atob\<close> returns, or \<open>None\<close> where \<open>atob\<close> throws (not base64).
\<close>

datatype message =
    Connection
  | SessionOpened
  | Transcript string
  | TurnComplete string
  | ChatStarted string
  | AudioChunk nat "8 word list option"
  | LLMResponseComplete string
  | ChatComplete
  | ErrorMessage string
  | AudioComplete int
  | ConversationEnded
  | Unknown string

record state =
  conversationState :: phase
  websocket :: "ready_state option"
  audioContext :: "ctx_state option"
  isConversationActive :: bool
  chatHistory :: "turn list"
  audioPlaybackContext :: "playback_ctx option"
  audioPlayheadTime :: real
  audioBufferQueue :: "real list list"
  isBuffering :: bool
  isAudioPlaying :: bool
  wavHeaderProcessed :: bool
  wallClock :: nat
  timers :: "timer list"
  statusDisplay :: "status list"
  transcriptText :: string
  sent :: "outbound list"

text \<open>
  What the browser answers during a callback: the result of
  \<open>new AudioContext({sampleRate: 44100})\<close> and of the fallback \<open>new AudioContext()\<close>
  (\<open>None\<close> where the constructor throws), and whether the settings hold an API key.
\<close>

record browser =
  ctorResult :: "ctx_state option"
  fallbackResult :: "ctx_state option"
  haveApiKeys :: bool

definition bufferThreshold :: nat where
  "bufferThreshold = 3"

definition AUDIO_SAMPLE_RATE :: real where
  "AUDIO_SAMPLE_RATE = 44100"

definition initialState :: state where
  "initialState = \<lparr> conversationState = Idle, websocket = None, audioContext = None,
     isConversationActive = False, chatHistory = [], audioPlaybackContext = None,
     audioPlayheadTime = 0, audioBufferQueue = [], isBuffering = True,
     isAudioPlaying = False, wavHeaderProcessed = False, wallClock = 0, timers = [],
     statusDisplay = [], transcriptText = [], sent = [] \<rparr>"

section \<open>Small effects\<close>

definition updateStatus :: "status \<Rightarrow> state \<Rightarrow> state" where
  "updateStatus m s = s\<lparr>statusDisplay := statusDisplay s @ [m]\<rparr>"

definition showLiveTranscript :: "state \<Rightarrow> state" where
  "showLiveTranscript s = s\<lparr>transcriptText := ''Listening...''\<rparr>"

definition updateLiveTranscript :: "string \<Rightarrow> state \<Rightarrow> state" where
  "updateLiveTranscript text s = s\<lparr>transcriptText := text\<rparr>"

definition setTimeout :: "timer_kind \<Rightarrow> nat \<Rightarrow> state \<Rightarrow> state" where
  "setTimeout k delay s =
     s\<lparr>timers := timers s @ [\<lparr>kind = k, due = wallClock s + delay, pending = True\<rparr>]\<rparr>"

definition send :: "outbound \<Rightarrow> state \<Rightarrow> state" where
  "send m s = s\<lparr>sent := sent s @ [m]\<rparr>"

definition addMessageToChat :: "sender \<Rightarrow> string \<Rightarrow> state \<Rightarrow> state" where
  "addMessageToChat who text s =
     s\<lparr>chatHistory := chatHistory s @
         [\<lparr>sender = who, message = text, timestamp = wallClock s\<rparr>]\<rparr>"

definition closeConnections :: "state \<Rightarrow> state" where
  "closeConnections s =
     s\<lparr>audioContext := None, websocket := None, audioPlaybackContext := None\<rparr>"

definition resetToIdle :: "state \<Rightarrow> state" where
  "resetToIdle s =
     closeConnections (s\<lparr>conversationState := Idle, isConversationActive := False\<rparr>)"

section \<open>Capture encoder\<close>

text \<open>
  Storing a number into an \<open>Int16Array\<close> truncates it towards zero and wraps it modulo
  \<open>2^16\<close>; the word type does the wrapping.
\<close>

definition truncateNumber :: "real \<Rightarrow> int" where
  "truncateNumber v = (if 0 \<le> v then \<lfloor>v\<rfloor> else \<lceil>v\<rceil>)"

definition toInt16 :: "real \<Rightarrow> 16 word" where
  "toInt16 v = word_of_int (truncateNumber v)"

definition floatToInt16 :: "real \<Rightarrow> 16 word" where
  "floatToInt16 x = toInt16 (max (- 32768) (min 32767 (x * 32768)))"

definition onaudioprocess :: "real list \<Rightarrow> state \<Rightarrow> state" where
  "onaudioprocess inputData s =
     (if conversationState s \<noteq> Listening then s
      else let outputData = map floatToInt16 inputData
           in if websocket s = Some OPEN then send (Frame outputData) s else s)"

text \<open>The bytes of an \<open>Int16Array\<close>'s buffer, on a little-endian host.\<close>

fun bufferBytes :: "16 word list \<Rightarrow> 8 word list" where
  "bufferBytes [] = []"
| "bufferBytes (w # ws) = ucast w # ucast (drop_bit 8 w) # bufferBytes ws"

section \<open>Decoding a payload\<close>

text \<open>\<open>view.getInt16(i, true)\<close>: two bytes, low byte first, read as two's complement.\<close>

definition getInt16 :: "8 word list \<Rightarrow> nat \<Rightarrow> int" where
  "getInt16 bytes i = sint (word_cat (bytes ! (i + 1)) (bytes ! i) :: 16 word)"

text \<open>
  \<open>base64ToPCMFloat32\<close> returns \<open>None\<close> for the \<open>null\<close> of its catch block. The flag is
  set before anything that can throw except \<open>atob\<close>. A negative length makes
  \<open>new ArrayBuffer\<close> throw; with an odd length the sample count is fractional and the
  last turn of the loop reads past the end of the view, which throws as well.
\<close>

definition base64ToPCMFloat32 :: "8 word list option \<Rightarrow> state \<Rightarrow> real list option \<times> state" where
  "base64ToPCMFloat32 base64Audio s =
     (case base64Audio of
        None \<Rightarrow> (None, s)
      | Some binary \<Rightarrow>
          let offset = (if wavHeaderProcessed s then 0 else 44);
              s' = s\<lparr>wavHeaderProcessed := True\<rparr>;
              len = int (length binary) - offset
          in if len < 0 then (None, s')
             else let byteArray = map (\<lambda>i. binary ! (i + nat offset)) [0..<nat len]
                  in if odd len then (None, s')
                     else (Some (map (\<lambda>i. real_of_int (getInt16 byteArray (i * 2)) / 32768)
                                   [0..<nat len div 2]), s'))"

section \<open>Playback scheduler\<close>

definition resetAudioPlaybackState :: "state \<Rightarrow> state" where
  "resetAudioPlaybackState s =
     s\<lparr>audioPlayheadTime :=
          (case audioPlaybackContext s of Some c \<Rightarrow> currentTime c + 0.1 | None \<Rightarrow> 0),
       audioBufferQueue := [],
       isBuffering := True,
       isAudioPlaying := False,
       wavHeaderProcessed := False\<rparr>"

definition newContext :: "ctx_state \<Rightarrow> playback_ctx" where
  "newContext st = \<lparr>ctxState = st, currentTime = 0, started = [],
     resumeRequested = False, thenProcess = 0\<rparr>"

definition requestResume :: "state \<Rightarrow> state" where
  "requestResume s =
     (case audioPlaybackContext s of
        None \<Rightarrow> s
      | Some c \<Rightarrow>
          if ctxState c = Suspended
          then s\<lparr>audioPlaybackContext := Some (c\<lparr>resumeRequested := True\<rparr>)\<rparr>
          else s)"

definition needsNewContext :: "state \<Rightarrow> bool" where
  "needsNewContext s =
     (case audioPlaybackContext s of None \<Rightarrow> True | Some c \<Rightarrow> ctxState c = Closed)"

text \<open>
  When the first constructor throws, the catch block installs the fallback context (if
  that one can be built) and returns without resetting the playback state.
\<close>

definition initializeAudioPlayback :: "browser \<Rightarrow> state \<Rightarrow> state" where
  "initializeAudioPlayback b s =
     (if needsNewContext s then
        (case ctorResult b of
           None \<Rightarrow>
             (case fallbackResult b of
                None \<Rightarrow> s
              | Some st \<Rightarrow> s\<lparr>audioPlaybackContext := Some (newContext st)\<rparr>)
         | Some st \<Rightarrow>
             resetAudioPlaybackState
               (requestResume (s\<lparr>audioPlaybackContext := Some (newContext st)\<rparr>)))
      else resetAudioPlaybackState (requestResume s))"

text \<open>
  \<open>createBuffer\<close> rejects a buffer of no frames and \<open>start\<close> rejects a negative time;
  both exceptions end in the catch block, the second one after the playhead was snapped.
\<close>

definition scheduleChunkAtPlayhead :: "real list \<Rightarrow> state \<Rightarrow> state" where
  "scheduleChunkAtPlayhead chunk s =
     (case audioPlaybackContext s of
        None \<Rightarrow> s
      | Some c \<Rightarrow>
          if ctxState c = Closed then s
          else if chunk = [] then s
          else let duration = real (length chunk) / AUDIO_SAMPLE_RATE;
                   now = currentTime c;
                   playhead = (if audioPlayheadTime s \<le> now then now + 0.01
                               else audioPlayheadTime s)
               in if playhead < 0 then s\<lparr>audioPlayheadTime := playhead\<rparr>
                  else s\<lparr>audioPlaybackContext :=
                           Some (c\<lparr>started := started c @ [(playhead, duration)]\<rparr>),
                         audioPlayheadTime := playhead + duration\<rparr>)"

text \<open>The loop of \<open>processBufferedChunks\<close>: shift one chunk and schedule it, \<open>n\<close> times.\<close>

fun processLoop :: "nat \<Rightarrow> state \<Rightarrow> state" where
  "processLoop 0 s = s"
| "processLoop (Suc n) s =
     (case audioBufferQueue s of
        [] \<Rightarrow> processLoop n s
      | chunk # rest \<Rightarrow>
          processLoop n (scheduleChunkAtPlayhead chunk (s\<lparr>audioBufferQueue := rest\<rparr>)))"

definition processBufferedChunks :: "state \<Rightarrow> state" where
  "processBufferedChunks s = processLoop (min (length (audioBufferQueue s)) 5) s"

definition startBufferedPlayback :: "browser \<Rightarrow> state \<Rightarrow> state" where
  "startBufferedPlayback b s =
     (case audioPlaybackContext s of
        None \<Rightarrow> initializeAudioPlayback b s
      | Some c \<Rightarrow>
          if ctxState c = Suspended
          then s\<lparr>audioPlaybackContext :=
                   Some (c\<lparr>resumeRequested := True, thenProcess := thenProcess c + 1\<rparr>)\<rparr>
          else processBufferedChunks s)"

section \<open>Message handlers\<close>

definition handleTranscriptMessage :: "string \<Rightarrow> state \<Rightarrow> state" where
  "handleTranscriptMessage text s =
     (if conversationState s = Listening
      then updateStatus StatusKeepSpeaking (updateLiveTranscript text s)
      else s)"

definition handleTurnComplete :: "string \<Rightarrow> state \<Rightarrow> state" where
  "handleTurnComplete final_transcript s =
     addMessageToChat User final_transcript
       (updateStatus StatusProcessing (s\<lparr>conversationState := Processing\<rparr>))"

definition handleChatStarted :: "browser \<Rightarrow> string \<Rightarrow> state \<Rightarrow> state" where
  "handleChatStarted b user_message s =
     initializeAudioPlayback b (updateStatus (StatusThinking (take 30 user_message)) s)"

definition waitTime :: "int \<Rightarrow> int" where
  "waitTime total_chunks = max 2000 (min (total_chunks * 1000) 5000)"

definition handleAudioComplete :: "int \<Rightarrow> state \<Rightarrow> state" where
  "handleAudioComplete total_chunks s =
     (let s1 = (if length (audioBufferQueue s) > 0 then processBufferedChunks s else s);
          s2 = updateStatus StatusFinishing s1
      in setTimeout DrainTimeout (nat (waitTime total_chunks)) s2)"

definition handleAudioChunk :: "browser \<Rightarrow> 8 word list option \<Rightarrow> state \<Rightarrow> state" where
  "handleAudioChunk b audio_data s =
     (let s1 = (if conversationState s \<noteq> Speaking
                then updateStatus StatusSpeaking (s\<lparr>conversationState := Speaking\<rparr>)
                else s);
          (pcmData, s2) = base64ToPCMFloat32 audio_data s1;
          s3 = (case pcmData of
                  None \<Rightarrow> s2
                | Some pcm \<Rightarrow>
                    if length pcm > 0 then
                      (let s' = s2\<lparr>audioBufferQueue := audioBufferQueue s2 @ [pcm]\<rparr>
                       in if isBuffering s' \<and> length (audioBufferQueue s') \<ge> bufferThreshold
                          then startBufferedPlayback b
                                 (s'\<lparr>isBuffering := False, isAudioPlaying := True\<rparr>)
                          else if \<not> isBuffering s' \<and> length (audioBufferQueue s') > 0
                          then processBufferedChunks s'
                          else s')
                    else s2)
      in if \<not> isAudioPlaying s3
         then setTimeout SafetyTimeout 15000 (s3\<lparr>isAudioPlaying := True\<rparr>)
         else s3)"

definition handleLLMResponseComplete :: "string \<Rightarrow> state \<Rightarrow> state" where
  "handleLLMResponseComplete llm_response s = addMessageToChat AI llm_response s"

definition handleChatComplete :: "state \<Rightarrow> state" where
  "handleChatComplete s = resetAudioPlaybackState s"

definition handleWebSocketMessage :: "browser \<Rightarrow> message \<Rightarrow> state \<Rightarrow> state" where
  "handleWebSocketMessage b data s =
     (case data of
        Connection \<Rightarrow> updateStatus StatusConnected s
      | SessionOpened \<Rightarrow> updateStatus StatusSessionReady s
      | Transcript text \<Rightarrow> handleTranscriptMessage text s
      | TurnComplete final_transcript \<Rightarrow> handleTurnComplete final_transcript s
      | ChatStarted user_message \<Rightarrow> handleChatStarted b user_message s
      | AudioChunk chunk_index audio_data \<Rightarrow> handleAudioChunk b audio_data s
      | LLMResponseComplete llm_response \<Rightarrow> handleLLMResponseComplete llm_response s
      | ChatComplete \<Rightarrow> handleChatComplete s
      | ErrorMessage msg \<Rightarrow> updateStatus (StatusError msg) s
      | AudioComplete total_chunks \<Rightarrow> handleAudioComplete total_chunks s
      | ConversationEnded \<Rightarrow> updateStatus StatusThankYou s
      | Unknown tag \<Rightarrow> s)"

section \<open>Timer callbacks\<close>

definition safetyTimeout :: "state \<Rightarrow> state" where
  "safetyTimeout s =
     (if conversationState s = Speaking \<and> isConversationActive s
      then handleAudioComplete (int (length (audioBufferQueue s)) + 1) s
      else s)"

definition drainTimeout :: "state \<Rightarrow> state" where
  "drainTimeout s =
     (let s1 = s\<lparr>isBuffering := True, isAudioPlaying := False\<rparr>
      in if isConversationActive s1 \<and> conversationState s1 = Speaking
         then showLiveTranscript
                (updateStatus StatusReady (s1\<lparr>conversationState := Listening\<rparr>))
         else s1)"

definition goodbyeTimeout :: "state \<Rightarrow> state" where
  "goodbyeTimeout s = updateStatus StatusEnded (resetToIdle (closeConnections s))"

definition runTimer :: "timer_kind \<Rightarrow> state \<Rightarrow> state" where
  "runTimer k s =
     (case k of
        SafetyTimeout \<Rightarrow> safetyTimeout s
      | DrainTimeout \<Rightarrow> drainTimeout s
      | GoodbyeTimeout \<Rightarrow> goodbyeTimeout s)"

text \<open>
  A timer runs at most once and not before it is due; asking for anything else leaves
  the state as it is.
\<close>

definition fireTimer :: "nat \<Rightarrow> state \<Rightarrow> state" where
  "fireTimer k s =
     (if k < length (timers s) \<and> pending (timers s ! k) \<and> due (timers s ! k) \<le> wallClock s
      then runTimer (kind (timers s ! k))
             (s\<lparr>timers := (timers s)[k := (timers s ! k)\<lparr>pending := False\<rparr>]\<rparr>)
      else s)"

section \<open>User actions and channel events\<close>

text \<open>
  The synchronous part of \<open>startConversation\<close>; the \<open>WebSocket\<close> constructor is taken to
  succeed, and what follows the opening of the channel arrives as the events
  \<open>WsOpen\<close>, \<open>MicGranted\<close> and \<open>MicDenied\<close> below. A \<open>resume()\<close> of the capture context
  has no effect on the fields of the model and is not recorded.
\<close>

definition startConversation :: "state \<Rightarrow> state" where
  "startConversation s =
     (let s1 = s\<lparr>conversationState := Listening, isConversationActive := True\<rparr>
      in if websocket s1 \<noteq> Some OPEN
         then (updateStatus StatusConnecting (s1\<lparr>chatHistory := []\<rparr>))
                \<lparr>websocket := Some CONNECTING\<rparr>
         else showLiveTranscript (updateStatus StatusListening s1))"

definition endConversation :: "state \<Rightarrow> state" where
  "endConversation s =
     (let s1 = updateStatus StatusGoodbye
                 (s\<lparr>conversationState := Ending, isConversationActive := False\<rparr>);
          s2 = (if websocket s1 = Some OPEN then send EndConversation s1 else s1)
      in setTimeout GoodbyeTimeout 8000 s2)"

definition handleConversationButton :: "state \<Rightarrow> state" where
  "handleConversationButton s =
     (if conversationState s = Idle then startConversation s
      else if conversationState s = Listening \<or> conversationState s = Processing
              \<or> conversationState s = Speaking
      then endConversation s
      else s)"

text \<open>
  \<open>onopen\<close> sends through the variable \<open>websocket\<close>; if a teardown has emptied it, sending
  the keys throws and the rest of the handler is not run.
\<close>

definition onopen :: "browser \<Rightarrow> state \<Rightarrow> state" where
  "onopen b s =
     (case websocket s of
        None \<Rightarrow> if haveApiKeys b then s else updateStatus StatusRequestingMic s
      | Some r \<Rightarrow>
          (let s1 = s\<lparr>websocket := Some OPEN\<rparr>;
               s2 = (if haveApiKeys b then send UserApiKeys s1 else s1)
           in updateStatus StatusRequestingMic s2))"

definition onclose :: "state \<Rightarrow> state" where
  "onclose s =
     (if isConversationActive s
      then resetToIdle (updateStatus StatusConnectionLost s)
      else s)"

definition onerror :: "state \<Rightarrow> state" where
  "onerror s = resetToIdle (updateStatus StatusConnectionError s)"

definition micGranted :: "ctx_state \<Rightarrow> state \<Rightarrow> state" where
  "micGranted st s =
     showLiveTranscript (updateStatus StatusListening (s\<lparr>audioContext := Some st\<rparr>))"

definition micDenied :: "state \<Rightarrow> state" where
  "micDenied s = resetToIdle (updateStatus StatusMicDenied s)"

section \<open>The event loop\<close>

text \<open>
  One event is one callback run to completion, or the passing of time: \<open>Elapse\<close>
  advances the wall clock that timers are measured against, \<open>AudioClock\<close> moves the
  clock of a running output context forward, and \<open>PlaybackResumed\<close> settles a pending
  \<open>resume()\<close> and runs the continuations attached to it.
\<close>

datatype event =
    ConversationButton
  | WsOpen
  | WsMessage message
  | WsClose
  | WsError
  | MicGranted ctx_state
  | MicDenied
  | AudioProcess "real list"
  | TimerFire nat
  | Elapse nat
  | AudioClock real
  | PlaybackResumed

definition audioClock :: "real \<Rightarrow> state \<Rightarrow> state" where
  "audioClock t s =
     (case audioPlaybackContext s of
        None \<Rightarrow> s
      | Some c \<Rightarrow>
          if ctxState c = Running
          then s\<lparr>audioPlaybackContext := Some (c\<lparr>currentTime := max (currentTime c) t\<rparr>)\<rparr>
          else s)"

definition playbackResumed :: "state \<Rightarrow> state" where
  "playbackResumed s =
     (case audioPlaybackContext s of
        None \<Rightarrow> s
      | Some c \<Rightarrow>
          if ctxState c = Suspended \<and> resumeRequested c
          then (processBufferedChunks ^^ thenProcess c)
                 (s\<lparr>audioPlaybackContext :=
                      Some (c\<lparr>ctxState := Running, resumeRequested := False,
                              thenProcess := 0\<rparr>)\<rparr>)
          else s)"

definition step :: "browser \<Rightarrow> event \<Rightarrow> state \<Rightarrow> state" where
  "step b e s =
     (case e of
        ConversationButton \<Rightarrow> handleConversationButton s
      | WsOpen \<Rightarrow> onopen b s
      | WsMessage data \<Rightarrow> handleWebSocketMessage b data s
      | WsClose \<Rightarrow> onclose s
      | WsError \<Rightarrow> onerror s
      | MicGranted st \<Rightarrow> micGranted st s
      | MicDenied \<Rightarrow> micDenied s
      | AudioProcess inputData \<Rightarrow>
          (if audioContext s \<noteq> None then onaudioprocess inputData s else s)
      | TimerFire k \<Rightarrow> fireTimer k s
      | Elapse ms \<Rightarrow> s\<lparr>wallClock := wallClock s + ms\<rparr>
      | AudioClock t \<Rightarrow> audioClock t s
      | PlaybackResumed \<Rightarrow> playbackResumed s)"

fun run :: "browser \<Rightarrow> event list \<Rightarrow> state \<Rightarrow> state" where
  "run b [] s = s"
| "run b (e # es) s = run b es (step b e s)"

section \<open>The stages of \<open>handleAudioChunk\<close>\<close>

text \<open>
  The handler does four things in a row: it enters the Speaking phase, decodes the
  payload, queues the samples (starting or continuing playback), and arms the safety
  timeout. The stages are named here so that each can be reasoned about on its own;
  \<open>handleAudioChunk_stages\<close> below shows that their composition is the handler.
\<close>

definition enterSpeaking :: "state \<Rightarrow> state" where
  "enterSpeaking s =
     (if conversationState s \<noteq> Speaking
      then updateStatus StatusSpeaking (s\<lparr>conversationState := Speaking\<rparr>)
      else s)"

definition enqueueChunk :: "browser \<Rightarrow> real list \<Rightarrow> state \<Rightarrow> state" where
  "enqueueChunk b pcm s =
     (let s' = s\<lparr>audioBufferQueue := audioBufferQueue s @ [pcm]\<rparr>
      in if isBuffering s' \<and> length (audioBufferQueue s') \<ge> bufferThreshold
         then startBufferedPlayback b (s'\<lparr>isBuffering := False, isAudioPlaying := True\<rparr>)
         else if \<not> isBuffering s' \<and> length (audioBufferQueue s') > 0
         then processBufferedChunks s'
         else s')"

definition afterDecode :: "browser \<Rightarrow> real list option \<Rightarrow> state \<Rightarrow> state" where
  "afterDecode b pcmData s =
     (case pcmData of
        None \<Rightarrow> s
      | Some pcm \<Rightarrow> if length pcm > 0 then enqueueChunk b pcm s else s)"

definition armSafety :: "state \<Rightarrow> state" where
  "armSafety s =
     (if \<not> isAudioPlaying s
      then setTimeout SafetyTimeout 15000 (s\<lparr>isAudioPlaying := True\<rparr>)
      else s)"

section \<open>Properties of the output timeline\<close>






text \<open>Whether an output context exists, and what has been started on it.\<close>

definition hasPlaybackContext :: "state \<Rightarrow> bool" where
  "hasPlaybackContext s = (audioPlaybackContext s \<noteq> None)"

definition scheduledSources :: "state \<Rightarrow> (real \<times> real) list option" where
  "scheduledSources s = map_option started (audioPlaybackContext s)"

section \<open>Runs of audio chunks, and traces\<close>

definition audioChunkEvents :: "(nat \<times> 8 word list option) list \<Rightarrow> event list" where
  "audioChunkEvents ps = map (\<lambda>p. WsMessage (AudioChunk (fst p) (snd p))) ps"

text \<open>The states a run passes through, the starting state first.\<close>

fun states :: "browser \<Rightarrow> event list \<Rightarrow> state \<Rightarrow> state list" where
  "states b [] s = [s]"
| "states b (e # es) s = s # states b es (step b e s)"

section \<open>Sample inputs\<close>

text \<open>
  A browser that builds running contexts, a payload header of 44 bytes, two audio
  chunk messages (a header with two samples, and three bare samples), and the states
  of one session: the user starts the conversation, the channel opens and the
  microphone is granted (\<open>listeningState\<close>); a turn completes and the reply is
  announced (\<open>openingState\<close>); the first chunk arrives (\<open>speakingState\<close>), a second
  one (\<open>twoQueuedState\<close>) and a third (\<open>playingState\<close>). The other states branch off
  \<open>speakingState\<close>: the drain timer of an \<open>audio_complete\<close> is due, the safety timer is
  due, or the user has ended the conversation and the goodbye timer is due. In
  \<open>noContextState\<close> two chunks have arrived in a session that saw no \<open>chat_started\<close>,
  so that no output context exists; \<open>brokenBrowser\<close> is a browser whose \<open>AudioContext\<close>
  constructors throw.
\<close>

definition sampleBrowser :: browser where
  "sampleBrowser = \<lparr>ctorResult = Some Running, fallbackResult = None, haveApiKeys = False\<rparr>"

definition wavHeader :: "8 word list" where
  "wavHeader = replicate 44 0"

definition openingEvents :: "event list" where
  "openingEvents =
     [ConversationButton, WsOpen, MicGranted Running,
      WsMessage (TurnComplete ''What's the weather''),
      WsMessage (ChatStarted ''What's the weather'')]"

definition firstChunk :: event where
  "firstChunk = WsMessage (AudioChunk 0 (Some (wavHeader @ [1, 0, 2, 0])))"

definition nextChunk :: event where
  "nextChunk = WsMessage (AudioChunk 1 (Some [3, 0, 4, 0, 5, 0]))"

definition listeningState :: state where
  "listeningState = run sampleBrowser [ConversationButton, WsOpen, MicGranted Running] initialState"

definition openingState :: state where
  "openingState = run sampleBrowser openingEvents initialState"

definition speakingState :: state where
  "speakingState = run sampleBrowser (openingEvents @ [firstChunk]) initialState"

definition twoQueuedState :: state where
  "twoQueuedState = run sampleBrowser [nextChunk] speakingState"

definition playingState :: state where
  "playingState = run sampleBrowser [nextChunk, nextChunk] speakingState"

definition chunkBurst :: "event list" where
  "chunkBurst = [nextChunk, nextChunk, AudioClock 5, nextChunk]"

definition drainDueState :: state where
  "drainDueState =
     run sampleBrowser [WsMessage (AudioComplete 4), Elapse 4000] speakingState"

definition guardDueState :: state where
  "guardDueState = run sampleBrowser [Elapse 15000] speakingState"

definition endingState :: state where
  "endingState = run sampleBrowser [ConversationButton, Elapse 8000] speakingState"

definition brokenBrowser :: browser where
  "brokenBrowser = \<lparr>ctorResult = None, fallbackResult = None, haveApiKeys = False\<rparr>"

definition noContextState :: state where
  "noContextState = run sampleBrowser [firstChunk, nextChunk] listeningState"

definition guardThenCompleteEvents :: "event list" where
  "guardThenCompleteEvents =
     [Elapse 15000, TimerFire 0, Elapse 1000, WsMessage (AudioComplete 5), Elapse 1000,
      TimerFire 1]"

definition drainPendingState :: state where
  "drainPendingState = run sampleBrowser [WsMessage (AudioComplete 4)] speakingState"

section \<open>What the scheduler leaves alone\<close>

text \<open>
  Scheduling touches the output context, the playhead and the queue, and nothing else.
\<close>

lemma schedule_frame:
  "conversationState (scheduleChunkAtPlayhead c s) = conversationState s"
  "websocket (scheduleChunkAtPlayhead c s) = websocket s"
  "audioContext (scheduleChunkAtPlayhead c s) = audioContext s"
  "isConversationActive (scheduleChunkAtPlayhead c s) = isConversationActive s"
  "chatHistory (scheduleChunkAtPlayhead c s) = chatHistory s"
  "audioBufferQueue (scheduleChunkAtPlayhead c s) = audioBufferQueue s"
  "isBuffering (scheduleChunkAtPlayhead c s) = isBuffering s"
  "isAudioPlaying (scheduleChunkAtPlayhead c s) = isAudioPlaying s"
  "wavHeaderProcessed (scheduleChunkAtPlayhead c s) = wavHeaderProcessed s"
  "wallClock (scheduleChunkAtPlayhead c s) = wallClock s"
  "timers (scheduleChunkAtPlayhead c s) = timers s"
  "statusDisplay (scheduleChunkAtPlayhead c s) = statusDisplay s"
  "transcriptText (scheduleChunkAtPlayhead c s) = transcriptText s"
  "sent (scheduleChunkAtPlayhead c s) = sent s"
  by (simp_all add: scheduleChunkAtPlayhead_def Let_def split: option.split)

lemma processLoop_frame:
  "conversationState (processLoop n s) = conversationState s"
  "websocket (processLoop n s) = websocket s"
  "audioContext (processLoop n s) = audioContext s"
  "isConversationActive (processLoop n s) = isConversationActive s"
  "chatHistory (processLoop n s) = chatHistory s"
  "isBuffering (processLoop n s) = isBuffering s"
  "isAudioPlaying (processLoop n s) = isAudioPlaying s"
  "wavHeaderProcessed (processLoop n s) = wavHeaderProcessed s"
  "wallClock (processLoop n s) = wallClock s"
  "timers (processLoop n s) = timers s"
  "statusDisplay (processLoop n s) = statusDisplay s"
  "transcriptText (processLoop n s) = transcriptText s"
  "sent (processLoop n s) = sent s"
  by (induction n arbitrary: s; simp add: schedule_frame split: list.split)+

lemma processLoop_queue:
  "audioBufferQueue (processLoop n s) = drop n (audioBufferQueue s)"
  by (induction n arbitrary: s) (simp_all add: schedule_frame split: list.split)

lemma process_frame:
  "conversationState (processBufferedChunks s) = conversationState s"
  "websocket (processBufferedChunks s) = websocket s"
  "audioContext (processBufferedChunks s) = audioContext s"
  "isConversationActive (processBufferedChunks s) = isConversationActive s"
  "chatHistory (processBufferedChunks s) = chatHistory s"
  "isBuffering (processBufferedChunks s) = isBuffering s"
  "isAudioPlaying (processBufferedChunks s) = isAudioPlaying s"
  "wavHeaderProcessed (processBufferedChunks s) = wavHeaderProcessed s"
  "wallClock (processBufferedChunks s) = wallClock s"
  "timers (processBufferedChunks s) = timers s"
  "statusDisplay (processBufferedChunks s) = statusDisplay s"
  "transcriptText (processBufferedChunks s) = transcriptText s"
  "sent (processBufferedChunks s) = sent s"
  by (simp_all add: processBufferedChunks_def processLoop_frame)

lemma process_queue:
  "audioBufferQueue (processBufferedChunks s) = drop 5 (audioBufferQueue s)"
  by (simp add: processBufferedChunks_def processLoop_queue min_def)

section \<open>What each handler leaves alone\<close>

lemma handleAudioChunk_stages:
  "handleAudioChunk b a s =
     armSafety (afterDecode b (fst (base64ToPCMFloat32 a (enterSpeaking s)))
                              (snd (base64ToPCMFloat32 a (enterSpeaking s))))"
  by (simp only: handleAudioChunk_def enterSpeaking_def enqueueChunk_def afterDecode_def
        armSafety_def Let_def case_prod_beta)

lemma handleAudioComplete_frame:
  "conversationState (handleAudioComplete n s) = conversationState s"
  "isConversationActive (handleAudioComplete n s) = isConversationActive s"
  "wallClock (handleAudioComplete n s) = wallClock s"
  "timers (handleAudioComplete n s) =
     timers s @ [\<lparr>kind = DrainTimeout, due = wallClock s + nat (waitTime n), pending = True\<rparr>]"
  by (simp_all add: handleAudioComplete_def Let_def setTimeout_def updateStatus_def process_frame)

lemma initializeAudioPlayback_frame:
  "conversationState (initializeAudioPlayback b s) = conversationState s"
  "isConversationActive (initializeAudioPlayback b s) = isConversationActive s"
  "wallClock (initializeAudioPlayback b s) = wallClock s"
  "timers (initializeAudioPlayback b s) = timers s"
  "statusDisplay (initializeAudioPlayback b s) = statusDisplay s"
  "chatHistory (initializeAudioPlayback b s) = chatHistory s"
  by (simp_all add: initializeAudioPlayback_def resetAudioPlaybackState_def requestResume_def
        split: option.split)

lemma startBufferedPlayback_frame:
  "conversationState (startBufferedPlayback b s) = conversationState s"
  "isConversationActive (startBufferedPlayback b s) = isConversationActive s"
  "wallClock (startBufferedPlayback b s) = wallClock s"
  "timers (startBufferedPlayback b s) = timers s"
  "statusDisplay (startBufferedPlayback b s) = statusDisplay s"
  "chatHistory (startBufferedPlayback b s) = chatHistory s"
  by (simp_all add: startBufferedPlayback_def initializeAudioPlayback_frame process_frame
        split: option.split)

lemma base64_frame:
  "conversationState (snd (base64ToPCMFloat32 a s)) = conversationState s"
  "isConversationActive (snd (base64ToPCMFloat32 a s)) = isConversationActive s"
  "wallClock (snd (base64ToPCMFloat32 a s)) = wallClock s"
  "timers (snd (base64ToPCMFloat32 a s)) = timers s"
  "statusDisplay (snd (base64ToPCMFloat32 a s)) = statusDisplay s"
  "chatHistory (snd (base64ToPCMFloat32 a s)) = chatHistory s"
  "audioBufferQueue (snd (base64ToPCMFloat32 a s)) = audioBufferQueue s"
  "isBuffering (snd (base64ToPCMFloat32 a s)) = isBuffering s"
  "isAudioPlaying (snd (base64ToPCMFloat32 a s)) = isAudioPlaying s"
  "audioPlaybackContext (snd (base64ToPCMFloat32 a s)) = audioPlaybackContext s"
  "audioPlayheadTime (snd (base64ToPCMFloat32 a s)) = audioPlayheadTime s"
  by (simp_all add: base64ToPCMFloat32_def Let_def split: option.split)

lemma enqueueChunk_frame:
  "conversationState (enqueueChunk b pcm s) = conversationState s"
  "isConversationActive (enqueueChunk b pcm s) = isConversationActive s"
  "wallClock (enqueueChunk b pcm s) = wallClock s"
  "timers (enqueueChunk b pcm s) = timers s"
  "statusDisplay (enqueueChunk b pcm s) = statusDisplay s"
  "chatHistory (enqueueChunk b pcm s) = chatHistory s"
  by (simp_all add: enqueueChunk_def Let_def startBufferedPlayback_frame process_frame)

lemma afterDecode_frame:
  "conversationState (afterDecode b p s) = conversationState s"
  "isConversationActive (afterDecode b p s) = isConversationActive s"
  "wallClock (afterDecode b p s) = wallClock s"
  "timers (afterDecode b p s) = timers s"
  "statusDisplay (afterDecode b p s) = statusDisplay s"
  "chatHistory (afterDecode b p s) = chatHistory s"
  by (simp_all add: afterDecode_def enqueueChunk_frame split: option.split)

lemma armSafety_frame:
  "conversationState (armSafety s) = conversationState s"
  "isConversationActive (armSafety s) = isConversationActive s"
  "wallClock (armSafety s) = wallClock s"
  "statusDisplay (armSafety s) = statusDisplay s"
  "chatHistory (armSafety s) = chatHistory s"
  "isAudioPlaying (armSafety s)"
  by (simp_all add: armSafety_def setTimeout_def)

lemma enterSpeaking_phase: "conversationState (enterSpeaking s) = Speaking"
  by (simp add: enterSpeaking_def updateStatus_def)

lemma handleAudioChunk_phase:
  "conversationState (handleAudioChunk b a s) = Speaking"
  by (simp add: handleAudioChunk_stages armSafety_frame afterDecode_frame base64_frame
        enterSpeaking_phase)

lemma funpow_process_frame:
  "conversationState ((processBufferedChunks ^^ n) s) = conversationState s"
  "isConversationActive ((processBufferedChunks ^^ n) s) = isConversationActive s"
  "wallClock ((processBufferedChunks ^^ n) s) = wallClock s"
  "timers ((processBufferedChunks ^^ n) s) = timers s"
  "statusDisplay ((processBufferedChunks ^^ n) s) = statusDisplay s"
  "chatHistory ((processBufferedChunks ^^ n) s) = chatHistory s"
  by (induction n; simp add: process_frame)+

lemma message_phase:
  assumes "conversationState s = Speaking"
  shows "conversationState (handleWebSocketMessage b m s) \<noteq> Listening"
  using assms
  by (cases m) (simp_all add: handleWebSocketMessage_def updateStatus_def
      handleTranscriptMessage_def handleTurnComplete_def addMessageToChat_def
      handleChatStarted_def initializeAudioPlayback_frame handleAudioChunk_phase
      handleLLMResponseComplete_def handleChatComplete_def resetAudioPlaybackState_def
      handleAudioComplete_frame)

lemma drainTimeout_phase:
  "conversationState (drainTimeout s) =
     (if isConversationActive s \<and> conversationState s = Speaking then Listening
      else conversationState s)"
  by (simp add: drainTimeout_def Let_def showLiveTranscript_def updateStatus_def)

section \<open>Samples, bytes and words\<close>

lemma truncate_bounds:
  assumes "- 32768 \<le> v" and "v \<le> 32767"
  shows "- 32768 \<le> truncateNumber v" and "truncateNumber v \<le> 32767" and "\<bar>real_of_int (truncateNumber v) - v\<bar> < 1"
  using assms by (auto simp add: truncateNumber_def) linarith+

lemma sint_toInt16:
  assumes "- 32768 \<le> v" and "v \<le> 32767"
  shows "sint (toInt16 v) = truncateNumber v"
proof -
  have "- 32768 \<le> truncateNumber v" "truncateNumber v \<le> 32767" using assms by (rule truncate_bounds)+
  then show ?thesis
    by (simp add: toInt16_def sint_sbintrunc' signed_take_bit_int_eq_self)
qed

lemma sint_16_range: "- 32768 \<le> sint (w :: 16 word) \<and> sint w \<le> 32767"
  using sint_ge [of w] sint_lt [of w] by simp

lemma floatToInt16_close:
  assumes "- 1 \<le> x" and "x \<le> 1"
  shows "\<bar>real_of_int (sint (floatToInt16 x)) / 32768 - x\<bar> \<le> 1 / 32768"
proof -
  let ?v = "max (- 32768) (min 32767 (x * 32768))"
  have r: "- 32768 \<le> ?v" "?v \<le> 32767" by simp_all
  have t: "\<bar>real_of_int (truncateNumber ?v) - ?v\<bar> < 1" using r by (rule truncate_bounds)
  have s: "sint (floatToInt16 x) = truncateNumber ?v"
    unfolding floatToInt16_def using r by (rule sint_toInt16)
  show ?thesis
  proof (cases "x * 32768 \<le> 32767")
    case True
    then have "?v = x * 32768" using assms by simp
    with t have "\<bar>real_of_int (truncateNumber ?v) - x * 32768\<bar> < 1" by simp
    then show ?thesis unfolding s by (simp add: field_simps abs_if split: if_splits)
  next
    case False
    then have v: "?v = 32767" by simp
    have "truncateNumber (32767::real) = 32767" by (simp add: truncateNumber_def)
    with v have "real_of_int (truncateNumber ?v) = 32767" by simp
    then show ?thesis unfolding s using False assms by (simp add: field_simps abs_if)
  qed
qed

lemma cat_bytes: "word_cat (ucast (drop_bit 8 w) :: 8 word) (ucast w :: 8 word) = (w :: 16 word)"
  by (rule bit_word_eqI) (auto simp: bit_simps)

lemma length_bufferBytes: "length (bufferBytes ws) = 2 * length ws"
  by (induction ws) simp_all

lemma nth_bufferBytes:
  "i < length ws \<Longrightarrow> bufferBytes ws ! (i * 2) = ucast (ws ! i)
     \<and> bufferBytes ws ! Suc (i * 2) = ucast (drop_bit 8 (ws ! i))"
proof (induction ws arbitrary: i)
  case Nil
  then show ?case by simp
next
  case (Cons w ws)
  then show ?case by (cases i) simp_all
qed

lemma getInt16_bufferBytes:
  "i < length ws \<Longrightarrow> getInt16 (bufferBytes ws) (i * 2) = sint (ws ! i)"
  by (simp add: getInt16_def nth_bufferBytes cat_bytes)

lemma decode_full:
  assumes "wavHeaderProcessed s"
  shows "base64ToPCMFloat32 (Some binary) s =
     (if even (length binary)
      then Some (map (\<lambda>i. real_of_int (getInt16 binary (i * 2)) / 32768) [0..<length binary div 2])
      else None, s)"
proof -
  have "map (\<lambda>i. binary ! i) [0..<length binary] = binary" by (rule map_nth)
  moreover have "s\<lparr>wavHeaderProcessed := True\<rparr> = s" using assms by simp
  ultimately show ?thesis using assms
    by (simp add: base64ToPCMFloat32_def Let_def)
qed

lemma decode_bufferBytes:
  assumes "wavHeaderProcessed s"
  shows "base64ToPCMFloat32 (Some (bufferBytes ws)) s =
     (Some (map (\<lambda>w. real_of_int (sint w) / 32768) ws), s)"
proof -
  have "map (\<lambda>i. real_of_int (getInt16 (bufferBytes ws) (i * 2)) / 32768) [0..<length ws]
      = map (\<lambda>i. real_of_int (sint (ws ! i)) / 32768) [0..<length ws]"
    by (rule map_cong) (simp_all add: getInt16_bufferBytes)
  also have "\<dots> = map (\<lambda>w. real_of_int (sint w) / 32768) (map (\<lambda>i. ws ! i) [0..<length ws])"
    by (simp add: comp_def)
  also have "\<dots> = map (\<lambda>w. real_of_int (sint w) / 32768) ws" by (simp only: map_nth)
  finally show ?thesis using assms
    by (simp add: decode_full length_bufferBytes)
qed

section \<open>Leaving the Speaking phase\<close>

lemma speaking_to_listening_step:
  assumes "conversationState s = Speaking" and "conversationState (step b e s) = Listening"
  shows "\<exists>k. e = TimerFire k \<and> k < length (timers s) \<and> kind (timers s ! k) = DrainTimeout
           \<and> pending (timers s ! k) \<and> due (timers s ! k) \<le> wallClock s
           \<and> isConversationActive s"
proof (cases e)
  case (WsMessage m)
  with assms message_phase [of s b m] show ?thesis by (simp add: step_def)
next
  case (TimerFire k)
  show ?thesis
  proof (cases "k < length (timers s) \<and> pending (timers s ! k) \<and> due (timers s ! k) \<le> wallClock s")
    case False
    with assms TimerFire show ?thesis by (auto simp add: step_def fireTimer_def)
  next
    case True
    with assms TimerFire show ?thesis
      by (cases "kind (timers s ! k)")
         (auto simp add: step_def fireTimer_def runTimer_def safetyTimeout_def
           handleAudioComplete_frame drainTimeout_phase goodbyeTimeout_def updateStatus_def
           resetToIdle_def closeConnections_def split: if_splits)
  qed
next
  case PlaybackResumed
  with assms show ?thesis
    by (simp add: step_def playbackResumed_def funpow_process_frame split: option.splits if_splits)
qed (use assms in \<open>auto simp add: step_def handleConversationButton_def endConversation_def
       setTimeout_def updateStatus_def send_def onopen_def Let_def onclose_def onerror_def
       resetToIdle_def closeConnections_def micGranted_def showLiveTranscript_def
       micDenied_def onaudioprocess_def audioClock_def split: option.splits if_splits\<close>)

lemma fire_drain_phase:
  assumes "k < length (timers t)" and "kind (timers t ! k) = DrainTimeout" and "pending (timers t ! k)"
  shows "conversationState (step b (TimerFire k) t) =
           (if due (timers t ! k) \<le> wallClock t \<and> isConversationActive t
               \<and> conversationState t = Speaking
            then Listening else conversationState t)"
  using assms by (simp add: step_def fireTimer_def runTimer_def drainTimeout_phase)

lemma fire_before_due:
  "wallClock s < due (timers s ! k) \<Longrightarrow> step b (TimerFire k) s = s"
  by (simp add: step_def fireTimer_def)

lemma audio_complete_then_listening:
  assumes "conversationState s = Speaking" and "isConversationActive s"
  shows "conversationState
           (run b [WsMessage (AudioComplete n), Elapse (nat (waitTime n)),
                   TimerFire (length (timers s))] s) = Listening"
proof -
  let ?s1 = "handleAudioComplete n s"
  let ?s2 = "?s1\<lparr>wallClock := wallClock ?s1 + nat (waitTime n)\<rparr>"
  have t: "timers ?s2 = timers s @ [\<lparr>kind = DrainTimeout, due = wallClock s + nat (waitTime n), pending = True\<rparr>]"
    by (simp add: handleAudioComplete_frame)
  have e: "timers ?s2 ! length (timers s) = \<lparr>kind = DrainTimeout, due = wallClock s + nat (waitTime n), pending = True\<rparr>"
    unfolding t by (simp add: nth_append)
  have l: "length (timers s) < length (timers ?s2)" unfolding t by simp
  have w: "wallClock ?s2 = wallClock s + nat (waitTime n)" by (simp add: handleAudioComplete_frame)
  have p: "conversationState ?s2 = Speaking" "isConversationActive ?s2"
    using assms by (simp_all add: handleAudioComplete_frame)
  have "conversationState (step b (TimerFire (length (timers s))) ?s2) = Listening"
    using fire_drain_phase [of "length (timers s)" ?s2 b] l e w p by simp
  then show ?thesis by (simp add: step_def handleWebSocketMessage_def)
qed

section \<open>Unfolding the model on concrete inputs\<close>

lemmas model_defs = initialState_def step_def handleConversationButton_def startConversation_def
  endConversation_def onopen_def onclose_def onerror_def micGranted_def micDenied_def
  onaudioprocess_def fireTimer_def runTimer_def safetyTimeout_def drainTimeout_def goodbyeTimeout_def
  handleWebSocketMessage_def handleTranscriptMessage_def handleTurnComplete_def handleChatStarted_def
  handleAudioComplete_def handleAudioChunk_def handleLLMResponseComplete_def handleChatComplete_def
  waitTime_def startBufferedPlayback_def processBufferedChunks_def scheduleChunkAtPlayhead_def
  initializeAudioPlayback_def needsNewContext_def requestResume_def newContext_def resetAudioPlaybackState_def
  base64ToPCMFloat32_def getInt16_def updateStatus_def showLiveTranscript_def updateLiveTranscript_def
  setTimeout_def send_def addMessageToChat_def closeConnections_def resetToIdle_def audioClock_def
  playbackResumed_def bufferThreshold_def AUDIO_SAMPLE_RATE_def Let_def
  sampleBrowser_def wavHeader_def openingEvents_def firstChunk_def nextChunk_def
  speakingState_def drainDueState_def chunkBurst_def
  audioChunkEvents_def openingState_def scheduledSources_def twoQueuedState_def playingState_def guardDueState_def endingState_def listeningState_def
  brokenBrowser_def noContextState_def guardThenCompleteEvents_def drainPendingState_def
  upt_conv_Cons nth_append word_cat_eq

section \<open>The scheduler keeps the timeline free of overlaps\<close>


















section \<open>Values of the sample runs\<close>


section \<open>Buffering before playback\<close>

lemma enterSpeaking_frame:
  "audioPlaybackContext (enterSpeaking s) = audioPlaybackContext s"
  "audioPlayheadTime (enterSpeaking s) = audioPlayheadTime s"
  "audioBufferQueue (enterSpeaking s) = audioBufferQueue s"
  "isBuffering (enterSpeaking s) = isBuffering s"
  "isAudioPlaying (enterSpeaking s) = isAudioPlaying s"
  "wavHeaderProcessed (enterSpeaking s) = wavHeaderProcessed s"
  "isConversationActive (enterSpeaking s) = isConversationActive s"
  "wallClock (enterSpeaking s) = wallClock s"
  "timers (enterSpeaking s) = timers s"
  "chatHistory (enterSpeaking s) = chatHistory s"
  by (simp_all add: enterSpeaking_def updateStatus_def)

lemma armSafety_more:
  "audioPlaybackContext (armSafety s) = audioPlaybackContext s"
  "audioPlayheadTime (armSafety s) = audioPlayheadTime s"
  "audioBufferQueue (armSafety s) = audioBufferQueue s"
  "isBuffering (armSafety s) = isBuffering s"
  "wavHeaderProcessed (armSafety s) = wavHeaderProcessed s"
  by (simp_all add: armSafety_def setTimeout_def)

lemma chunk_below_threshold:
  assumes "isBuffering s" and "length (audioBufferQueue s) + 1 < bufferThreshold"
  shows "audioPlaybackContext (handleAudioChunk b a s) = audioPlaybackContext s
     \<and> isBuffering (handleAudioChunk b a s)
     \<and> length (audioBufferQueue (handleAudioChunk b a s)) \<le> length (audioBufferQueue s) + 1"
proof -
  let ?r = "base64ToPCMFloat32 a (enterSpeaking s)"
  have q: "audioBufferQueue (snd ?r) = audioBufferQueue s" "isBuffering (snd ?r)"
     "audioPlaybackContext (snd ?r) = audioPlaybackContext s"
    using assms by (simp_all add: base64_frame enterSpeaking_frame)
  have "audioPlaybackContext (afterDecode b (fst ?r) (snd ?r)) = audioPlaybackContext s
     \<and> isBuffering (afterDecode b (fst ?r) (snd ?r))
     \<and> length (audioBufferQueue (afterDecode b (fst ?r) (snd ?r))) \<le> length (audioBufferQueue s) + 1"
    using q assms(2) by (simp add: afterDecode_def enqueueChunk_def Let_def split: option.split)
  then show ?thesis by (simp add: handleAudioChunk_stages armSafety_more)
qed

lemma chunks_below_threshold:
  "isBuffering s \<Longrightarrow> length (audioBufferQueue s) + length ps < bufferThreshold \<Longrightarrow>
     audioPlaybackContext (run b (audioChunkEvents ps) s) = audioPlaybackContext s
     \<and> isBuffering (run b (audioChunkEvents ps) s)"
proof (induction ps arbitrary: s)
  case Nil
  then show ?case by (simp add: audioChunkEvents_def)
next
  case (Cons p ps)
  let ?s = "handleAudioChunk b (snd p) s"
  have one: "length (audioBufferQueue s) + 1 < bufferThreshold" using Cons.prems(2) by simp
  note h = chunk_below_threshold [OF Cons.prems(1) one, of b "snd p"]
  have "length (audioBufferQueue ?s) + length ps < bufferThreshold"
    using h Cons.prems(2) by simp
  with h Cons.IH [of ?s] have "audioPlaybackContext (run b (audioChunkEvents ps) ?s) = audioPlaybackContext ?s
     \<and> isBuffering (run b (audioChunkEvents ps) ?s)" by simp
  with h show ?case
    by (simp add: audioChunkEvents_def step_def handleWebSocketMessage_def)
qed

lemma chunk_keeps_playing:
  assumes "\<not> isBuffering s"
  shows "\<not> isBuffering (handleAudioChunk b a s)"
proof -
  let ?r = "base64ToPCMFloat32 a (enterSpeaking s)"
  have "\<not> isBuffering (snd ?r)" using assms by (simp add: base64_frame enterSpeaking_frame)
  then have "\<not> isBuffering (afterDecode b (fst ?r) (snd ?r))"
    by (simp add: afterDecode_def enqueueChunk_def Let_def process_frame split: option.split)
  then show ?thesis by (simp add: handleAudioChunk_stages armSafety_more)
qed

lemma chunks_keep_playing:
  "\<not> isBuffering s \<Longrightarrow> \<not> isBuffering (run b (audioChunkEvents ps) s)"
proof (induction ps arbitrary: s)
  case Nil
  then show ?case by (simp add: audioChunkEvents_def)
next
  case (Cons p ps)
  from Cons.prems have "\<not> isBuffering (handleAudioChunk b (snd p) s)" by (rule chunk_keeps_playing)
  with Cons.IH [of "handleAudioChunk b (snd p) s"] show ?case
    by (simp add: audioChunkEvents_def step_def handleWebSocketMessage_def)
qed

lemma decode_result_flag:
  "wavHeaderProcessed s' = wavHeaderProcessed s \<Longrightarrow>
     fst (base64ToPCMFloat32 a s') = fst (base64ToPCMFloat32 a s)"
  by (simp add: base64ToPCMFloat32_def Let_def split: option.split)

lemma schedule_usable:
  assumes "audioPlaybackContext s = Some c" and "ctxState c \<noteq> Closed" and "0 \<le> currentTime c"
    and "chunk \<noteq> []"
  shows "\<exists>c'. audioPlaybackContext (scheduleChunkAtPlayhead chunk s) = Some c'
           \<and> ctxState c' = ctxState c \<and> currentTime c' = currentTime c
           \<and> map snd (started c') = map snd (started c) @ [real (length chunk) / 44100]"
  using assms by (simp add: scheduleChunkAtPlayhead_def Let_def AUDIO_SAMPLE_RATE_def)

lemma processLoop_durations:
  "audioPlaybackContext s = Some c \<Longrightarrow> ctxState c \<noteq> Closed \<Longrightarrow> 0 \<le> currentTime c \<Longrightarrow>
   [] \<notin> set (audioBufferQueue s) \<Longrightarrow>
   \<exists>c'. audioPlaybackContext (processLoop n s) = Some c'
        \<and> ctxState c' = ctxState c \<and> currentTime c' = currentTime c
        \<and> map snd (started c') =
            map snd (started c) @ map (\<lambda>q. real (length q) / 44100) (take n (audioBufferQueue s))"
proof (induction n arbitrary: s c)
  case 0
  then show ?case by simp
next
  case (Suc n)
  show ?case
  proof (cases "audioBufferQueue s")
    case Nil
    with Suc.IH [OF Suc.prems] show ?thesis by simp
  next
    case (Cons chunk rest)
    let ?s0 = "s\<lparr>audioBufferQueue := rest\<rparr>"
    let ?s1 = "scheduleChunkAtPlayhead chunk ?s0"
    have ne: "chunk \<noteq> []" and rest: "[] \<notin> set rest" using Suc.prems(4) Cons by auto
    have "audioPlaybackContext ?s0 = Some c" using Suc.prems(1) by simp
    from schedule_usable [OF this Suc.prems(2,3) ne] obtain c1 where
      c1: "audioPlaybackContext ?s1 = Some c1" "ctxState c1 = ctxState c"
          "currentTime c1 = currentTime c"
          "map snd (started c1) = map snd (started c) @ [real (length chunk) / 44100]"
      by blast
    have q1: "[] \<notin> set (audioBufferQueue ?s1)" using rest by (simp add: schedule_frame)
    have "ctxState c1 \<noteq> Closed" "0 \<le> currentTime c1" using c1 Suc.prems by simp_all
    from Suc.IH [OF c1(1) this q1] obtain c' where
      "audioPlaybackContext (processLoop n ?s1) = Some c'"
      "ctxState c' = ctxState c1" "currentTime c' = currentTime c1"
      "map snd (started c') =
         map snd (started c1) @ map (\<lambda>q. real (length q) / 44100) (take n (audioBufferQueue ?s1))"
      by blast
    then show ?thesis using c1 Cons by (simp add: schedule_frame)
  qed
qed

lemma threshold_starts_playback:
  assumes "isBuffering s" and "audioBufferQueue s = [q1, q2]" and "q1 \<noteq> []" and "q2 \<noteq> []"
    and "fst (base64ToPCMFloat32 a s) = Some pcm" and "pcm \<noteq> []"
    and "audioPlaybackContext s = Some c" and "ctxState c = Running" and "0 \<le> currentTime c"
  shows "\<not> isBuffering (handleAudioChunk b a s)
     \<and> audioBufferQueue (handleAudioChunk b a s) = []
     \<and> (\<exists>c'. audioPlaybackContext (handleAudioChunk b a s) = Some c'
            \<and> map snd (started c') = map snd (started c)
                 @ [real (length q1) / 44100, real (length q2) / 44100, real (length pcm) / 44100])"
proof -
  let ?r = "base64ToPCMFloat32 a (enterSpeaking s)"
  let ?s' = "(snd ?r)\<lparr>audioBufferQueue := [q1, q2, pcm], isBuffering := False, isAudioPlaying := True\<rparr>"
  have f: "fst ?r = Some pcm"
    using assms(5) decode_result_flag [of "enterSpeaking s" s a] by (simp add: enterSpeaking_frame)
  have q: "audioBufferQueue (snd ?r) = [q1, q2]" "isBuffering (snd ?r)"
     "audioPlaybackContext (snd ?r) = Some c"
    using assms by (simp_all add: base64_frame enterSpeaking_frame)
  have "afterDecode b (fst ?r) (snd ?r) = processBufferedChunks ?s'"
    using f q assms(6,8)
    by (simp add: afterDecode_def enqueueChunk_def Let_def bufferThreshold_def
          startBufferedPlayback_def)
  moreover have "processBufferedChunks ?s' = processLoop 3 ?s'"
    by (simp add: processBufferedChunks_def numeral_3_eq_3 del: processLoop.simps)
  ultimately have after: "afterDecode b (fst ?r) (snd ?r) = processLoop 3 ?s'"
    by (rule trans)
  have "audioPlaybackContext ?s' = Some c" using q by simp
  moreover have "ctxState c \<noteq> Closed" using assms(8) by simp
  moreover have "[] \<notin> set (audioBufferQueue ?s')" using assms(3,4,6) by auto
  ultimately obtain c' where
    c': "audioPlaybackContext (processLoop 3 ?s') = Some c'"
        "map snd (started c') =
           map snd (started c) @ map (\<lambda>q. real (length q) / 44100) (take 3 (audioBufferQueue ?s'))"
    using processLoop_durations [of ?s' c 3] assms(9) by blast
  have "audioBufferQueue (processLoop 3 ?s') = []" by (simp add: processLoop_queue)
  moreover have "\<not> isBuffering (processLoop 3 ?s')" by (simp add: processLoop_frame)
  ultimately show ?thesis using c' after
    by (simp add: handleAudioChunk_stages armSafety_more)
qed

lemma audio_complete_flushes:
  assumes "audioPlaybackContext s = Some c" and "ctxState c \<noteq> Closed" and "0 \<le> currentTime c"
    and "[] \<notin> set (audioBufferQueue s)"
  shows "\<exists>c'. audioPlaybackContext (handleAudioComplete n s) = Some c'
           \<and> map snd (started c') =
               map snd (started c)
                 @ map (\<lambda>q. real (length q) / 44100) (take 5 (audioBufferQueue s))"
proof (cases "audioBufferQueue s = []")
  case True
  then show ?thesis using assms(1)
    by (simp add: handleAudioComplete_def Let_def setTimeout_def updateStatus_def)
next
  case False
  from processLoop_durations [OF assms, of "min (length (audioBufferQueue s)) 5"]
  obtain c' where "audioPlaybackContext (processBufferedChunks s) = Some c'"
    "map snd (started c') = map snd (started c)
       @ map (\<lambda>q. real (length q) / 44100) (take (min (length (audioBufferQueue s)) 5) (audioBufferQueue s))"
    by (auto simp add: processBufferedChunks_def)
  then show ?thesis using False
    by (simp add: handleAudioComplete_def Let_def setTimeout_def updateStatus_def min_def)
qed

lemma audio_complete_buffering:
  "isBuffering (handleAudioComplete n s) = isBuffering s"
  "audioBufferQueue (handleAudioComplete n s) = drop 5 (audioBufferQueue s)"
  by (simp_all add: handleAudioComplete_def Let_def setTimeout_def updateStatus_def
        process_frame process_queue)

lemma twoQueuedState_value:
  "isBuffering twoQueuedState
   \<and> audioBufferQueue twoQueuedState = [[1 / 32768, 2 / 32768], [3 / 32768, 4 / 32768, 5 / 32768]]
   \<and> audioPlaybackContext twoQueuedState =
        Some \<lparr>ctxState = Running, currentTime = 0, started = [], resumeRequested = False,
              thenProcess = 0\<rparr>
   \<and> wavHeaderProcessed twoQueuedState"
  by (simp add: model_defs)

lemma nextChunk_decoded:
  "wavHeaderProcessed s \<Longrightarrow>
     fst (base64ToPCMFloat32 (Some [3, 0, 4, 0, 5, 0]) s) = Some [3 / 32768, 4 / 32768, 5 / 32768]"
  by (simp add: model_defs)

section \<open>No timer is cancelled\<close>

lemma chunk_timers_extend: "\<exists>xs. timers (handleAudioChunk b a s) = timers s @ xs"
  by (simp add: handleAudioChunk_stages armSafety_def setTimeout_def afterDecode_frame
        base64_frame enterSpeaking_frame)

lemma message_timers_extend: "\<exists>xs. timers (handleWebSocketMessage b m s) = timers s @ xs"
proof (cases m)
  case (AudioChunk i a)
  then show ?thesis using chunk_timers_extend [of b a s] by (simp add: handleWebSocketMessage_def)
qed (simp_all add: handleWebSocketMessage_def updateStatus_def handleTranscriptMessage_def
      updateLiveTranscript_def handleTurnComplete_def addMessageToChat_def handleChatStarted_def
      initializeAudioPlayback_frame handleLLMResponseComplete_def handleChatComplete_def
      resetAudioPlaybackState_def handleAudioComplete_frame)

lemma runTimer_timers_extend: "\<exists>xs. timers (runTimer kd s) = timers s @ xs"
  by (cases kd)
     (simp_all add: runTimer_def safetyTimeout_def handleAudioComplete_frame drainTimeout_def
        Let_def showLiveTranscript_def updateStatus_def goodbyeTimeout_def resetToIdle_def
        closeConnections_def)

lemma timer_not_cancelled:
  assumes "k < length (timers s)" and "e \<noteq> TimerFire k"
  shows "timers (step b e s) ! k = timers s ! k"
proof (cases e)
  case (WsMessage m)
  then show ?thesis using assms(1) message_timers_extend [of b m s]
    by (auto simp add: step_def nth_append)
next
  case (TimerFire j)
  with assms(2) have jk: "j \<noteq> k" by simp
  let ?s = "s\<lparr>timers := (timers s)[j := (timers s ! j)\<lparr>pending := False\<rparr>]\<rparr>"
  obtain xs where "timers (runTimer (kind (timers s ! j)) ?s) = timers ?s @ xs"
    using runTimer_timers_extend by blast
  then have "timers (runTimer (kind (timers s ! j)) ?s) ! k = timers s ! k"
    using assms(1) jk by (simp add: nth_append)
  then show ?thesis using TimerFire by (simp add: step_def fireTimer_def)
next
  case PlaybackResumed
  then show ?thesis
    by (simp add: step_def playbackResumed_def funpow_process_frame split: option.split)
qed (use assms(1) in \<open>auto simp add: step_def handleConversationButton_def startConversation_def
       endConversation_def setTimeout_def updateStatus_def send_def onopen_def Let_def
       onclose_def onerror_def resetToIdle_def closeConnections_def micGranted_def
       showLiveTranscript_def micDenied_def onaudioprocess_def audioClock_def nth_append
       split: option.splits\<close>)

section \<open>The safety timeout\<close>

lemma schedule_keeps_context:
  "hasPlaybackContext s \<Longrightarrow> hasPlaybackContext (scheduleChunkAtPlayhead chunk s)"
  by (auto simp add: hasPlaybackContext_def scheduleChunkAtPlayhead_def Let_def)

lemma processLoop_keeps_context:
  "hasPlaybackContext s \<Longrightarrow> hasPlaybackContext (processLoop n s)"
proof (induction n arbitrary: s)
  case 0
  then show ?case by simp
next
  case (Suc n)
  show ?case
  proof (cases "audioBufferQueue s")
    case Nil
    with Suc show ?thesis by simp
  next
    case (Cons chunk rest)
    have "hasPlaybackContext (s\<lparr>audioBufferQueue := rest\<rparr>)"
      using Suc.prems by (simp add: hasPlaybackContext_def)
    then have "hasPlaybackContext (scheduleChunkAtPlayhead chunk (s\<lparr>audioBufferQueue := rest\<rparr>))"
      by (rule schedule_keeps_context)
    then show ?thesis using Cons Suc.IH by simp
  qed
qed

lemma process_keeps_context:
  "hasPlaybackContext s \<Longrightarrow> hasPlaybackContext (processBufferedChunks s)"
  by (simp add: processBufferedChunks_def processLoop_keeps_context)

lemma startBufferedPlayback_keeps:
  assumes "hasPlaybackContext s"
  shows "hasPlaybackContext (startBufferedPlayback b s)"
    and "isAudioPlaying (startBufferedPlayback b s) = isAudioPlaying s"
    and "wavHeaderProcessed (startBufferedPlayback b s) = wavHeaderProcessed s"
proof -
  from assms obtain c where c: "audioPlaybackContext s = Some c"
    by (auto simp add: hasPlaybackContext_def)
  show "hasPlaybackContext (startBufferedPlayback b s)"
    using c assms process_keeps_context [of s]
    by (simp add: startBufferedPlayback_def hasPlaybackContext_def)
  show "isAudioPlaying (startBufferedPlayback b s) = isAudioPlaying s"
    using c by (simp add: startBufferedPlayback_def process_frame)
  show "wavHeaderProcessed (startBufferedPlayback b s) = wavHeaderProcessed s"
    using c by (simp add: startBufferedPlayback_def process_frame)
qed

lemma enqueueChunk_keeps_context:
  assumes "hasPlaybackContext s"
  shows "hasPlaybackContext (enqueueChunk b pcm s)"
    and "wavHeaderProcessed (enqueueChunk b pcm s) = wavHeaderProcessed s"
    and "isAudioPlaying s \<Longrightarrow> isAudioPlaying (enqueueChunk b pcm s)"
proof -
  let ?s1 = "s\<lparr>audioBufferQueue := audioBufferQueue s @ [pcm]\<rparr>"
  let ?s2 = "?s1\<lparr>isBuffering := False, isAudioPlaying := True\<rparr>"
  have h: "hasPlaybackContext ?s1" "hasPlaybackContext ?s2"
    using assms by (simp_all add: hasPlaybackContext_def)
  show "hasPlaybackContext (enqueueChunk b pcm s)"
    using h process_keeps_context [of ?s1] startBufferedPlayback_keeps(1) [of ?s2 b]
    by (simp add: enqueueChunk_def Let_def)
  show "wavHeaderProcessed (enqueueChunk b pcm s) = wavHeaderProcessed s"
    using startBufferedPlayback_keeps(3) [OF h(2), of b]
    by (simp add: enqueueChunk_def Let_def process_frame)
  show "isAudioPlaying (enqueueChunk b pcm s)" if "isAudioPlaying s"
    using that startBufferedPlayback_keeps(2) [OF h(2), of b]
    by (simp add: enqueueChunk_def Let_def process_frame)
qed

lemma afterDecode_keeps_context:
  assumes "hasPlaybackContext s"
  shows "hasPlaybackContext (afterDecode b p s)"
    and "wavHeaderProcessed (afterDecode b p s) = wavHeaderProcessed s"
    and "isAudioPlaying s \<Longrightarrow> isAudioPlaying (afterDecode b p s)"
  using assms by (simp_all add: afterDecode_def enqueueChunk_keeps_context split: option.split)

lemma afterDecode_not_playing:
  assumes "\<not> isAudioPlaying s" and "isBuffering s \<longrightarrow> length (audioBufferQueue s) + 1 < bufferThreshold"
  shows "\<not> isAudioPlaying (afterDecode b p s)"
  using assms
  by (auto simp add: afterDecode_def enqueueChunk_def Let_def process_frame split: option.split)

lemma chunk_keeps_context:
  assumes "hasPlaybackContext s"
  shows "hasPlaybackContext (handleAudioChunk b a s)"
proof -
  let ?r = "base64ToPCMFloat32 a (enterSpeaking s)"
  have "hasPlaybackContext (snd ?r)"
    using assms by (simp add: hasPlaybackContext_def base64_frame enterSpeaking_frame)
  then have "hasPlaybackContext (afterDecode b (fst ?r) (snd ?r))"
    by (rule afterDecode_keeps_context)
  then show ?thesis
    by (simp add: handleAudioChunk_stages hasPlaybackContext_def armSafety_more)
qed

lemma chunk_playing: "isAudioPlaying (handleAudioChunk b a s)"
  by (simp add: handleAudioChunk_stages armSafety_frame)

lemma chunk_no_arming:
  assumes "isAudioPlaying s" and "hasPlaybackContext s"
  shows "timers (handleAudioChunk b a s) = timers s"
proof -
  let ?r = "base64ToPCMFloat32 a (enterSpeaking s)"
  have "isAudioPlaying (snd ?r)" "hasPlaybackContext (snd ?r)"
    using assms by (simp_all add: hasPlaybackContext_def base64_frame enterSpeaking_frame)
  then have "isAudioPlaying (afterDecode b (fst ?r) (snd ?r))"
    by (simp add: afterDecode_keeps_context)
  then show ?thesis
    by (simp add: handleAudioChunk_stages armSafety_def afterDecode_frame base64_frame
          enterSpeaking_frame)
qed

lemma chunk_arms_guard:
  assumes "\<not> isAudioPlaying s"
    and "isBuffering s \<longrightarrow> length (audioBufferQueue s) + 1 < bufferThreshold"
  shows "timers (handleAudioChunk b a s) =
           timers s @ [\<lparr>kind = SafetyTimeout, due = wallClock s + 15000, pending = True\<rparr>]"
proof -
  let ?r = "base64ToPCMFloat32 a (enterSpeaking s)"
  have "\<not> isAudioPlaying (snd ?r)"
     "isBuffering (snd ?r) \<longrightarrow> length (audioBufferQueue (snd ?r)) + 1 < bufferThreshold"
    using assms by (simp_all add: base64_frame enterSpeaking_frame)
  then have "\<not> isAudioPlaying (afterDecode b (fst ?r) (snd ?r))"
    by (rule afterDecode_not_playing)
  then show ?thesis
    by (simp add: handleAudioChunk_stages armSafety_def setTimeout_def afterDecode_frame
          base64_frame enterSpeaking_frame)
qed

lemma chunks_no_arming:
  "isAudioPlaying s \<Longrightarrow> hasPlaybackContext s \<Longrightarrow>
     timers (run b (audioChunkEvents ps) s) = timers s"
proof (induction ps arbitrary: s)
  case Nil
  then show ?case by (simp add: audioChunkEvents_def)
next
  case (Cons p ps)
  let ?s = "handleAudioChunk b (snd p) s"
  have "timers (run b (audioChunkEvents ps) ?s) = timers ?s"
    using Cons.prems by (intro Cons.IH chunk_playing chunk_keeps_context)
  then show ?case using Cons.prems
    by (simp add: audioChunkEvents_def step_def handleWebSocketMessage_def chunk_no_arming)
qed

lemma chunks_arm_one_guard:
  assumes "\<not> isAudioPlaying s"
    and "isBuffering s \<longrightarrow> length (audioBufferQueue s) + 1 < bufferThreshold"
    and "hasPlaybackContext s" and "ps \<noteq> []"
  shows "timers (run b (audioChunkEvents ps) s) =
           timers s @ [\<lparr>kind = SafetyTimeout, due = wallClock s + 15000, pending = True\<rparr>]"
proof -
  from assms(4) obtain p qs where ps: "ps = p # qs" by (cases ps) auto
  let ?s = "handleAudioChunk b (snd p) s"
  have "timers (run b (audioChunkEvents qs) ?s) = timers ?s"
    using assms(3) by (intro chunks_no_arming chunk_playing chunk_keeps_context)
  then show ?thesis using assms(1,2) ps
    by (simp add: audioChunkEvents_def step_def handleWebSocketMessage_def chunk_arms_guard)
qed

lemma fire_guard:
  assumes "k < length (timers s)" and "kind (timers s ! k) = SafetyTimeout"
  shows "step b (TimerFire k) s =
     (if pending (timers s ! k) \<and> due (timers s ! k) \<le> wallClock s
      then (let s' = s\<lparr>timers := (timers s)[k := (timers s ! k)\<lparr>pending := False\<rparr>]\<rparr>
            in if conversationState s = Speaking \<and> isConversationActive s
               then handleAudioComplete (int (length (audioBufferQueue s)) + 1) s'
               else s')
      else s)"
  using assms by (simp add: step_def fireTimer_def runTimer_def safetyTimeout_def Let_def)

lemma fire_guard_once:
  assumes "k < length (timers s)" and "kind (timers s ! k) = SafetyTimeout"
    and "pending (timers s ! k)" and "due (timers s ! k) \<le> wallClock s"
  shows "\<not> pending (timers (step b (TimerFire k) s) ! k)"
  using assms
  by (simp add: fire_guard Let_def handleAudioComplete_frame nth_append)

lemma guard_forces_listening:
  assumes "k < length (timers s)" and "kind (timers s ! k) = SafetyTimeout"
    and "pending (timers s ! k)" and "due (timers s ! k) \<le> wallClock s"
    and "conversationState s = Speaking" and "isConversationActive s"
  shows "conversationState
           (run b [TimerFire k, Elapse (nat (waitTime (int (length (audioBufferQueue s)) + 1))),
                   TimerFire (length (timers s))] s) = Listening"
proof -
  let ?n = "int (length (audioBufferQueue s)) + 1"
  let ?s0 = "s\<lparr>timers := (timers s)[k := (timers s ! k)\<lparr>pending := False\<rparr>]\<rparr>"
  let ?s1 = "handleAudioComplete ?n ?s0"
  let ?s2 = "?s1\<lparr>wallClock := wallClock ?s1 + nat (waitTime ?n)\<rparr>"
  have s1: "step b (TimerFire k) s = ?s1" using assms by (simp add: fire_guard Let_def)
  have t: "timers ?s2 = timers ?s0 @ [\<lparr>kind = DrainTimeout, due = wallClock s + nat (waitTime ?n), pending = True\<rparr>]"
    by (simp add: handleAudioComplete_frame)
  have len: "length (timers ?s0) = length (timers s)" by simp
  have e: "timers ?s2 ! length (timers s) = \<lparr>kind = DrainTimeout, due = wallClock s + nat (waitTime ?n), pending = True\<rparr>"
    unfolding t using len by (simp add: nth_append)
  have l: "length (timers s) < length (timers ?s2)" unfolding t by simp
  have w: "wallClock ?s2 = wallClock s + nat (waitTime ?n)" by (simp add: handleAudioComplete_frame)
  have p: "conversationState ?s2 = Speaking" "isConversationActive ?s2"
    using assms by (simp_all add: handleAudioComplete_frame)
  have "conversationState (step b (TimerFire (length (timers s))) ?s2) = Listening"
    using fire_drain_phase [of "length (timers s)" ?s2 b] l e w p by simp
  then show ?thesis using s1 by (simp add: step_def)
qed

lemma guardDueState_value:
  "timers guardDueState = [\<lparr>kind = SafetyTimeout, due = 15000, pending = True\<rparr>]
   \<and> wallClock guardDueState = 15000
   \<and> conversationState guardDueState = Speaking \<and> isConversationActive guardDueState
   \<and> length (audioBufferQueue guardDueState) = 1"
  by (simp add: model_defs)

lemma openingState_value:
  "\<not> isAudioPlaying openingState \<and> isBuffering openingState
   \<and> audioBufferQueue openingState = [] \<and> hasPlaybackContext openingState
   \<and> timers openingState = [] \<and> wallClock openingState = 0"
  by (simp add: model_defs hasPlaybackContext_def)

section \<open>The header flag\<close>







section \<open>Teardown\<close>

lemma resetToIdle_effect:
  "conversationState (resetToIdle s) = Idle"
  "\<not> isConversationActive (resetToIdle s)"
  "websocket (resetToIdle s) = None"
  "audioContext (resetToIdle s) = None"
  "audioPlaybackContext (resetToIdle s) = None"
  "timers (resetToIdle s) = timers s"
  "audioBufferQueue (resetToIdle s) = audioBufferQueue s"
  "audioPlayheadTime (resetToIdle s) = audioPlayheadTime s"
  "statusDisplay (resetToIdle s) = statusDisplay s"
  by (simp_all add: resetToIdle_def closeConnections_def)

lemma endConversation_effect:
  "conversationState (endConversation s) = Ending"
  "\<not> isConversationActive (endConversation s)"
  "timers (endConversation s) =
     timers s @ [\<lparr>kind = GoodbyeTimeout, due = wallClock s + 8000, pending = True\<rparr>]"
  "audioPlaybackContext (endConversation s) = audioPlaybackContext s"
  "audioBufferQueue (endConversation s) = audioBufferQueue s"
  "audioPlayheadTime (endConversation s) = audioPlayheadTime s"
  by (simp_all add: endConversation_def Let_def setTimeout_def send_def updateStatus_def)

lemma stale_timer_inactive:
  assumes "\<not> isConversationActive s" and "k < length (timers s)"
    and "kind (timers s ! k) \<noteq> GoodbyeTimeout"
  shows "conversationState (step b (TimerFire k) s) = conversationState s"
    and "\<not> isConversationActive (step b (TimerFire k) s)"
    and "audioPlaybackContext (step b (TimerFire k) s) = audioPlaybackContext s"
    and "audioBufferQueue (step b (TimerFire k) s) = audioBufferQueue s"
  using assms
  by (cases "kind (timers s ! k)";
      simp add: step_def fireTimer_def runTimer_def safetyTimeout_def drainTimeout_def Let_def)+

lemma goodbye_timer_effect:
  assumes "k < length (timers s)" and "kind (timers s ! k) = GoodbyeTimeout"
    and "pending (timers s ! k)" and "due (timers s ! k) \<le> wallClock s"
  shows "conversationState (step b (TimerFire k) s) = Idle"
    and "\<not> isConversationActive (step b (TimerFire k) s)"
    and "audioPlaybackContext (step b (TimerFire k) s) = None"
    and "websocket (step b (TimerFire k) s) = None"
  using assms
  by (simp_all add: step_def fireTimer_def runTimer_def goodbyeTimeout_def updateStatus_def
        resetToIdle_def closeConnections_def)

section \<open>What an audio chunk does to the queue\<close>

lemma chunk_queue_unchanged:
  assumes "fst (base64ToPCMFloat32 a s) = None \<or> fst (base64ToPCMFloat32 a s) = Some []"
  shows "audioBufferQueue (handleAudioChunk b a s) = audioBufferQueue s"
proof -
  let ?r = "base64ToPCMFloat32 a (enterSpeaking s)"
  have "fst ?r = fst (base64ToPCMFloat32 a s)"
    by (rule decode_result_flag) (simp add: enterSpeaking_frame)
  with assms have "afterDecode b (fst ?r) (snd ?r) = snd ?r"
    by (auto simp add: afterDecode_def)
  then show ?thesis
    by (simp add: handleAudioChunk_stages armSafety_more base64_frame enterSpeaking_frame)
qed

lemma chunk_enqueued:
  assumes "fst (base64ToPCMFloat32 a s) = Some pcm" and "pcm \<noteq> []"
  shows "handleAudioChunk b a s =
           armSafety (enqueueChunk b pcm (snd (base64ToPCMFloat32 a (enterSpeaking s))))"
proof -
  let ?r = "base64ToPCMFloat32 a (enterSpeaking s)"
  have "fst ?r = fst (base64ToPCMFloat32 a s)"
    by (rule decode_result_flag) (simp add: enterSpeaking_frame)
  with assms show ?thesis by (simp add: handleAudioChunk_stages afterDecode_def)
qed

lemma chunk_queued_while_buffering:
  assumes "fst (base64ToPCMFloat32 a s) = Some pcm" and "pcm \<noteq> []"
    and "isBuffering s" and "length (audioBufferQueue s) + 1 < bufferThreshold"
  shows "audioBufferQueue (handleAudioChunk b a s) = audioBufferQueue s @ [pcm]"
proof -
  let ?r = "base64ToPCMFloat32 a (enterSpeaking s)"
  have "audioBufferQueue (snd ?r) = audioBufferQueue s" "isBuffering (snd ?r)"
    using assms(3) by (simp_all add: base64_frame enterSpeaking_frame)
  then have "audioBufferQueue (enqueueChunk b pcm (snd ?r)) = audioBufferQueue s @ [pcm]"
    using assms(4) by (simp add: enqueueChunk_def Let_def)
  then show ?thesis using chunk_enqueued [OF assms(1,2)] by (simp add: armSafety_more)
qed

lemma chunk_processed_while_playing:
  assumes "fst (base64ToPCMFloat32 a s) = Some pcm" and "pcm \<noteq> []" and "\<not> isBuffering s"
  shows "audioBufferQueue (handleAudioChunk b a s) = drop 5 (audioBufferQueue s @ [pcm])"
proof -
  let ?r = "base64ToPCMFloat32 a (enterSpeaking s)"
  have "audioBufferQueue (snd ?r) = audioBufferQueue s" "\<not> isBuffering (snd ?r)"
    using assms(3) by (simp_all add: base64_frame enterSpeaking_frame)
  then have "audioBufferQueue (enqueueChunk b pcm (snd ?r)) = drop 5 (audioBufferQueue s @ [pcm])"
    by (simp add: enqueueChunk_def Let_def process_queue)
  then show ?thesis using chunk_enqueued [OF assms(1,2)] by (simp add: armSafety_more)
qed

section \<open>The chunk that reaches the threshold\<close>

lemma startBufferedPlayback_buffering:
  "hasPlaybackContext s \<Longrightarrow> isBuffering (startBufferedPlayback b s) = isBuffering s"
  by (auto simp add: hasPlaybackContext_def startBufferedPlayback_def process_frame
        split: option.split)

lemma threshold_decoded:
  assumes "isBuffering s" and "bufferThreshold \<le> length (audioBufferQueue s) + 1"
    and "fst (base64ToPCMFloat32 a s) = Some pcm" and "pcm \<noteq> []"
  shows "handleAudioChunk b a s =
           armSafety (startBufferedPlayback b
             ((snd (base64ToPCMFloat32 a (enterSpeaking s)))
                \<lparr>audioBufferQueue := audioBufferQueue s @ [pcm],
                  isBuffering := False, isAudioPlaying := True\<rparr>))"
proof -
  let ?r = "base64ToPCMFloat32 a (enterSpeaking s)"
  have q: "audioBufferQueue (snd ?r) = audioBufferQueue s" "isBuffering (snd ?r)"
    using assms(1) by (simp_all add: base64_frame enterSpeaking_frame)
  have "enqueueChunk b pcm (snd ?r) =
          startBufferedPlayback b
             ((snd ?r)\<lparr>audioBufferQueue := audioBufferQueue s @ [pcm],
                  isBuffering := False, isAudioPlaying := True\<rparr>)"
    using q assms(2) by (simp add: enqueueChunk_def Let_def)
  then show ?thesis using chunk_enqueued [OF assms(3,4), of b] by simp
qed

lemma threshold_clears_flag:
  assumes "isBuffering s" and "bufferThreshold \<le> length (audioBufferQueue s) + 1"
    and "fst (base64ToPCMFloat32 a s) = Some pcm" and "pcm \<noteq> []"
    and "hasPlaybackContext s"
  shows "\<not> isBuffering (handleAudioChunk b a s)"
proof -
  let ?r = "base64ToPCMFloat32 a (enterSpeaking s)"
  let ?s' = "(snd ?r)\<lparr>audioBufferQueue := audioBufferQueue s @ [pcm],
                  isBuffering := False, isAudioPlaying := True\<rparr>"
  have "hasPlaybackContext ?s'"
    using assms(5) by (simp add: hasPlaybackContext_def base64_frame enterSpeaking_frame)
  then have "\<not> isBuffering (startBufferedPlayback b ?s')"
    by (simp add: startBufferedPlayback_buffering)
  then show ?thesis using threshold_decoded [OF assms(1-4), of b] by (simp add: armSafety_more)
qed

lemma threshold_without_context:
  assumes "isBuffering s" and "bufferThreshold \<le> length (audioBufferQueue s) + 1"
    and "fst (base64ToPCMFloat32 a s) = Some pcm" and "pcm \<noteq> []"
    and "audioPlaybackContext s = None" and "ctorResult b = Some st"
  shows "isBuffering (handleAudioChunk b a s)"
    and "audioBufferQueue (handleAudioChunk b a s) = []"
    and "scheduledSources (handleAudioChunk b a s) = Some []"
proof -
  let ?r = "base64ToPCMFloat32 a (enterSpeaking s)"
  let ?s' = "(snd ?r)\<lparr>audioBufferQueue := audioBufferQueue s @ [pcm],
                  isBuffering := False, isAudioPlaying := True\<rparr>"
  have c: "audioPlaybackContext ?s' = None"
    using assms(5) by (simp add: base64_frame enterSpeaking_frame)
  have i: "startBufferedPlayback b ?s' =
      resetAudioPlaybackState (requestResume (?s'\<lparr>audioPlaybackContext := Some (newContext st)\<rparr>))"
    using c assms(6)
    by (simp add: startBufferedPlayback_def initializeAudioPlayback_def needsNewContext_def)
  have r: "isBuffering (startBufferedPlayback b ?s')"
    "audioBufferQueue (startBufferedPlayback b ?s') = []"
    "scheduledSources (startBufferedPlayback b ?s') = Some []"
    unfolding i
    by (simp_all add: resetAudioPlaybackState_def requestResume_def newContext_def
          scheduledSources_def)
  note h = threshold_decoded [OF assms(1-4), of b]
  show "isBuffering (handleAudioChunk b a s)" using r(1) h by (simp add: armSafety_more)
  show "audioBufferQueue (handleAudioChunk b a s) = []" using r(2) h by (simp add: armSafety_more)
  show "scheduledSources (handleAudioChunk b a s) = Some []"
    using r(3) h by (simp add: armSafety_more scheduledSources_def)
qed

lemma threshold_without_constructor:
  assumes "isBuffering s" and "bufferThreshold \<le> length (audioBufferQueue s) + 1"
    and "fst (base64ToPCMFloat32 a s) = Some pcm" and "pcm \<noteq> []"
    and "audioPlaybackContext s = None" and "ctorResult b = None"
  shows "\<not> isBuffering (handleAudioChunk b a s)"
    and "audioBufferQueue (handleAudioChunk b a s) = audioBufferQueue s @ [pcm]"
    and "audioPlaybackContext (handleAudioChunk b a s) = map_option newContext (fallbackResult b)"
proof -
  let ?r = "base64ToPCMFloat32 a (enterSpeaking s)"
  let ?s' = "(snd ?r)\<lparr>audioBufferQueue := audioBufferQueue s @ [pcm],
                  isBuffering := False, isAudioPlaying := True\<rparr>"
  have c: "audioPlaybackContext ?s' = None"
    using assms(5) by (simp add: base64_frame enterSpeaking_frame)
  have i: "startBufferedPlayback b ?s' =
      (case fallbackResult b of None \<Rightarrow> ?s'
       | Some st \<Rightarrow> ?s'\<lparr>audioPlaybackContext := Some (newContext st)\<rparr>)"
    using c assms(6)
    by (simp add: startBufferedPlayback_def initializeAudioPlayback_def needsNewContext_def)
  have r: "\<not> isBuffering (startBufferedPlayback b ?s')"
    "audioBufferQueue (startBufferedPlayback b ?s') = audioBufferQueue s @ [pcm]"
    "audioPlaybackContext (startBufferedPlayback b ?s') = map_option newContext (fallbackResult b)"
    unfolding i using c by (simp_all split: option.split)
  note h = threshold_decoded [OF assms(1-4), of b]
  show "\<not> isBuffering (handleAudioChunk b a s)" using r(1) h by (simp add: armSafety_more)
  show "audioBufferQueue (handleAudioChunk b a s) = audioBufferQueue s @ [pcm]"
    using r(2) h by (simp add: armSafety_more)
  show "audioPlaybackContext (handleAudioChunk b a s) = map_option newContext (fallbackResult b)"
    using r(3) h by (simp add: armSafety_more)
qed

lemma noContextState_value:
  "isBuffering noContextState
   \<and> audioBufferQueue noContextState = [[1 / 32768, 2 / 32768], [3 / 32768, 4 / 32768, 5 / 32768]]
   \<and> audioPlaybackContext noContextState = None
   \<and> wavHeaderProcessed noContextState"
  by (simp add: model_defs)

section \<open>The claims\<close>

subsection \<open>C1: scheduled chunks never overlap\<close>



subsection \<open>C2: buffering before playback\<close>

text \<open>
  C2, as the code has it. The threshold is 3. While \<open>isBuffering\<close> is set, audio chunks
  that leave the queue shorter than the threshold schedule nothing and leave the flag
  set. For the chunk that brings the queue to the threshold there are three cases. If
  an output context exists, the flag is cleared; on a running context whose clock is
  not negative, with two chunks queued and none of them empty, the queue is emptied
  onto the timeline in arrival order. If no output
  context exists and one can be built, playback is initialised again: the queued
  chunks are dropped, nothing is scheduled and the flag is set as before. If none
  exists and none can be built, the flag is cleared, the chunks stay queued and
  nothing is scheduled. Once the flag is clear no further audio chunk sets it, so a
  run of audio chunks takes it from set to clear at most once. An \<open>audio_complete\<close>
  leaves the flag as it is and takes up to five chunks off the queue, whatever its
  length; on a usable context they are scheduled in arrival order.
\<close>

theorem buffering_before_playback:
  "bufferThreshold = 3
   \<and> (isBuffering s1 \<and> length (audioBufferQueue s1) + length ps < bufferThreshold \<longrightarrow>
        audioPlaybackContext (run b (audioChunkEvents ps) s1) = audioPlaybackContext s1
        \<and> isBuffering (run b (audioChunkEvents ps) s1))
   \<and> (isBuffering s2 \<and> audioBufferQueue s2 = [q1, q2] \<and> q1 \<noteq> [] \<and> q2 \<noteq> []
        \<and> fst (base64ToPCMFloat32 a s2) = Some pcm \<and> pcm \<noteq> []
        \<and> audioPlaybackContext s2 = Some c \<and> ctxState c = Running \<and> 0 \<le> currentTime c \<longrightarrow>
        \<not> isBuffering (handleAudioChunk b a s2)
        \<and> audioBufferQueue (handleAudioChunk b a s2) = []
        \<and> (\<exists>c'. audioPlaybackContext (handleAudioChunk b a s2) = Some c'
              \<and> map snd (started c') = map snd (started c)
                   @ [real (length q1) / 44100, real (length q2) / 44100,
                      real (length pcm) / 44100]))
   \<and> (isBuffering s5 \<and> bufferThreshold \<le> length (audioBufferQueue s5) + 1
        \<and> fst (base64ToPCMFloat32 a5 s5) = Some pcm5 \<and> pcm5 \<noteq> [] \<longrightarrow>
        (hasPlaybackContext s5 \<longrightarrow> \<not> isBuffering (handleAudioChunk b a5 s5))
        \<and> (audioPlaybackContext s5 = None \<and> ctorResult b \<noteq> None \<longrightarrow>
             isBuffering (handleAudioChunk b a5 s5)
             \<and> audioBufferQueue (handleAudioChunk b a5 s5) = []
             \<and> scheduledSources (handleAudioChunk b a5 s5) = Some [])
        \<and> (audioPlaybackContext s5 = None \<and> ctorResult b = None \<longrightarrow>
             \<not> isBuffering (handleAudioChunk b a5 s5)
             \<and> audioBufferQueue (handleAudioChunk b a5 s5) = audioBufferQueue s5 @ [pcm5]
             \<and> audioPlaybackContext (handleAudioChunk b a5 s5)
                 = map_option newContext (fallbackResult b)))
   \<and> (\<not> isBuffering s3 \<longrightarrow> \<not> isBuffering (run b (audioChunkEvents qs) s3))
   \<and> isBuffering (handleWebSocketMessage b (AudioComplete n) s4) = isBuffering s4
   \<and> audioBufferQueue (handleWebSocketMessage b (AudioComplete n) s4)
       = drop 5 (audioBufferQueue s4)
   \<and> (audioPlaybackContext s4 = Some c4 \<and> ctxState c4 \<noteq> Closed \<and> 0 \<le> currentTime c4
        \<and> [] \<notin> set (audioBufferQueue s4) \<longrightarrow>
        (\<exists>c'. audioPlaybackContext (handleWebSocketMessage b (AudioComplete n) s4) = Some c'
              \<and> map snd (started c') = map snd (started c4)
                   @ map (\<lambda>q. real (length q) / 44100) (take 5 (audioBufferQueue s4))))"
proof -
  have reached: "(hasPlaybackContext s5 \<longrightarrow> \<not> isBuffering (handleAudioChunk b a5 s5))
        \<and> (audioPlaybackContext s5 = None \<and> ctorResult b \<noteq> None \<longrightarrow>
             isBuffering (handleAudioChunk b a5 s5)
             \<and> audioBufferQueue (handleAudioChunk b a5 s5) = []
             \<and> scheduledSources (handleAudioChunk b a5 s5) = Some [])
        \<and> (audioPlaybackContext s5 = None \<and> ctorResult b = None \<longrightarrow>
             \<not> isBuffering (handleAudioChunk b a5 s5)
             \<and> audioBufferQueue (handleAudioChunk b a5 s5) = audioBufferQueue s5 @ [pcm5]
             \<and> audioPlaybackContext (handleAudioChunk b a5 s5)
                 = map_option newContext (fallbackResult b))"
    if h: "isBuffering s5 \<and> bufferThreshold \<le> length (audioBufferQueue s5) + 1
        \<and> fst (base64ToPCMFloat32 a5 s5) = Some pcm5 \<and> pcm5 \<noteq> []"
  proof -
    from h have h': "isBuffering s5" "bufferThreshold \<le> length (audioBufferQueue s5) + 1"
      "fst (base64ToPCMFloat32 a5 s5) = Some pcm5" "pcm5 \<noteq> []"
      by simp_all
    show ?thesis
      using threshold_clears_flag [OF h', of b] threshold_without_context [OF h', of b]
        threshold_without_constructor [OF h', of b]
      by auto
  qed
  have rest: "bufferThreshold = 3
   \<and> (isBuffering s1 \<and> length (audioBufferQueue s1) + length ps < bufferThreshold \<longrightarrow>
        audioPlaybackContext (run b (audioChunkEvents ps) s1) = audioPlaybackContext s1
        \<and> isBuffering (run b (audioChunkEvents ps) s1))
   \<and> (isBuffering s2 \<and> audioBufferQueue s2 = [q1, q2] \<and> q1 \<noteq> [] \<and> q2 \<noteq> []
        \<and> fst (base64ToPCMFloat32 a s2) = Some pcm \<and> pcm \<noteq> []
        \<and> audioPlaybackContext s2 = Some c \<and> ctxState c = Running \<and> 0 \<le> currentTime c \<longrightarrow>
        \<not> isBuffering (handleAudioChunk b a s2)
        \<and> audioBufferQueue (handleAudioChunk b a s2) = []
        \<and> (\<exists>c'. audioPlaybackContext (handleAudioChunk b a s2) = Some c'
              \<and> map snd (started c') = map snd (started c)
                   @ [real (length q1) / 44100, real (length q2) / 44100,
                      real (length pcm) / 44100]))
   \<and> (\<not> isBuffering s3 \<longrightarrow> \<not> isBuffering (run b (audioChunkEvents qs) s3))
   \<and> isBuffering (handleWebSocketMessage b (AudioComplete n) s4) = isBuffering s4
   \<and> audioBufferQueue (handleWebSocketMessage b (AudioComplete n) s4)
       = drop 5 (audioBufferQueue s4)
   \<and> (audioPlaybackContext s4 = Some c4 \<and> ctxState c4 \<noteq> Closed \<and> 0 \<le> currentTime c4
        \<and> [] \<notin> set (audioBufferQueue s4) \<longrightarrow>
        (\<exists>c'. audioPlaybackContext (handleWebSocketMessage b (AudioComplete n) s4) = Some c'
              \<and> map snd (started c') = map snd (started c4)
                   @ map (\<lambda>q. real (length q) / 44100) (take 5 (audioBufferQueue s4))))"
    using chunks_below_threshold [of s1 ps b] threshold_starts_playback [of s2 q1 q2 a pcm c b]
      chunks_keep_playing [of s3 b qs] audio_complete_flushes [of s4 c4 n]
      audio_complete_buffering [of n s4]
    by (simp add: bufferThreshold_def handleWebSocketMessage_def)
  from rest reached show ?thesis by blast
qed

theorem buffering_before_playback_witness:
  "isBuffering speakingState
   \<and> length (audioBufferQueue speakingState)
        + length [(1::nat, Some [3, 0, 4, 0, 5, 0 :: 8 word])] < bufferThreshold
   \<and> audioPlaybackContext (run sampleBrowser (audioChunkEvents [(1, Some [3, 0, 4, 0, 5, 0])]) speakingState)
       = audioPlaybackContext speakingState
   \<and> isBuffering (run sampleBrowser (audioChunkEvents [(1, Some [3, 0, 4, 0, 5, 0])]) speakingState)
   \<and> isBuffering twoQueuedState
   \<and> \<not> isBuffering (handleAudioChunk sampleBrowser (Some [3, 0, 4, 0, 5, 0]) twoQueuedState)
   \<and> audioBufferQueue (handleAudioChunk sampleBrowser (Some [3, 0, 4, 0, 5, 0]) twoQueuedState) = []
   \<and> \<not> isBuffering playingState
   \<and> \<not> isBuffering (run sampleBrowser (audioChunkEvents [(3, Some [3, 0, 4, 0, 5, 0])]) playingState)
   \<and> audioBufferQueue twoQueuedState
       = [[1 / 32768, 2 / 32768], [3 / 32768, 4 / 32768, 5 / 32768]]
   \<and> audioBufferQueue (handleWebSocketMessage sampleBrowser (AudioComplete 2) twoQueuedState) = []
   \<and> isBuffering (handleWebSocketMessage sampleBrowser (AudioComplete 2) twoQueuedState)
   \<and> map_option (map snd)
        (scheduledSources (handleWebSocketMessage sampleBrowser (AudioComplete 2) twoQueuedState))
       = Some [2 / 44100, 3 / 44100]
   \<and> isBuffering noContextState \<and> audioPlaybackContext noContextState = None
   \<and> isBuffering (handleAudioChunk sampleBrowser (Some [3, 0, 4, 0, 5, 0]) noContextState)
   \<and> audioBufferQueue (handleAudioChunk sampleBrowser (Some [3, 0, 4, 0, 5, 0]) noContextState) = []
   \<and> scheduledSources (handleAudioChunk sampleBrowser (Some [3, 0, 4, 0, 5, 0]) noContextState)
       = Some []
   \<and> \<not> isBuffering (handleAudioChunk brokenBrowser (Some [3, 0, 4, 0, 5, 0]) noContextState)
   \<and> audioBufferQueue (handleAudioChunk brokenBrowser (Some [3, 0, 4, 0, 5, 0]) noContextState)
       = [[1 / 32768, 2 / 32768], [3 / 32768, 4 / 32768, 5 / 32768],
          [3 / 32768, 4 / 32768, 5 / 32768]]
   \<and> audioPlaybackContext (handleAudioChunk brokenBrowser (Some [3, 0, 4, 0, 5, 0]) noContextState)
       = None"
proof -
  note inst = buffering_before_playback [where ?s1.0 = speakingState
      and ps = "[(1, Some [3, 0, 4, 0, 5, 0])]" and b = sampleBrowser
      and ?s2.0 = twoQueuedState and ?q1.0 = "[1 / 32768, 2 / 32768]"
      and ?q2.0 = "[3 / 32768, 4 / 32768, 5 / 32768]" and a = "Some [3, 0, 4, 0, 5, 0]"
      and pcm = "[3 / 32768, 4 / 32768, 5 / 32768]"
      and c = "\<lparr>ctxState = Running, currentTime = 0, started = [], resumeRequested = False,
                thenProcess = 0\<rparr>"
      and ?s3.0 = playingState and qs = "[(3, Some [3, 0, 4, 0, 5, 0])]" and n = 2
      and ?s4.0 = twoQueuedState
      and ?c4.0 = "\<lparr>ctxState = Running, currentTime = 0, started = [], resumeRequested = False,
                thenProcess = 0\<rparr>"
      and ?s5.0 = noContextState and ?a5.0 = "Some [3, 0, 4, 0, 5, 0]"
      and ?pcm5.0 = "[3 / 32768, 4 / 32768, 5 / 32768]"]
  note broken = buffering_before_playback [where b = brokenBrowser
      and ?s5.0 = noContextState and ?a5.0 = "Some [3, 0, 4, 0, 5, 0]"
      and ?pcm5.0 = "[3 / 32768, 4 / 32768, 5 / 32768]"]
  note present = buffering_before_playback [where b = sampleBrowser
      and ?s5.0 = twoQueuedState and ?a5.0 = "Some [3, 0, 4, 0, 5, 0]"
      and ?pcm5.0 = "[3 / 32768, 4 / 32768, 5 / 32768]"]
  have h5: "isBuffering noContextState
     \<and> bufferThreshold \<le> length (audioBufferQueue noContextState) + 1
     \<and> fst (base64ToPCMFloat32 (Some [3, 0, 4, 0, 5, 0]) noContextState)
          = Some [3 / 32768, 4 / 32768, 5 / 32768]
     \<and> [3 / 32768, 4 / 32768, 5 / 32768] \<noteq> ([] :: real list)"
    using noContextState_value nextChunk_decoded [of noContextState]
    by (simp add: bufferThreshold_def)
  have none: "audioPlaybackContext noContextState = None" using noContextState_value by simp
  have ctor: "ctorResult sampleBrowser \<noteq> None" "ctorResult brokenBrowser = None"
    "fallbackResult brokenBrowser = None"
    by (simp_all add: sampleBrowser_def brokenBrowser_def)
  from inst h5 none ctor(1) have rebuilt:
    "isBuffering (handleAudioChunk sampleBrowser (Some [3, 0, 4, 0, 5, 0]) noContextState)
     \<and> audioBufferQueue (handleAudioChunk sampleBrowser (Some [3, 0, 4, 0, 5, 0]) noContextState) = []
     \<and> scheduledSources (handleAudioChunk sampleBrowser (Some [3, 0, 4, 0, 5, 0]) noContextState)
         = Some []"
    by blast
  from broken h5 none ctor(2) have
    "\<not> isBuffering (handleAudioChunk brokenBrowser (Some [3, 0, 4, 0, 5, 0]) noContextState)
     \<and> audioBufferQueue (handleAudioChunk brokenBrowser (Some [3, 0, 4, 0, 5, 0]) noContextState)
         = audioBufferQueue noContextState @ [[3 / 32768, 4 / 32768, 5 / 32768]]
     \<and> audioPlaybackContext (handleAudioChunk brokenBrowser (Some [3, 0, 4, 0, 5, 0]) noContextState)
         = map_option newContext (fallbackResult brokenBrowser)"
    by blast
  then have unbuilt:
    "\<not> isBuffering (handleAudioChunk brokenBrowser (Some [3, 0, 4, 0, 5, 0]) noContextState)
     \<and> audioBufferQueue (handleAudioChunk brokenBrowser (Some [3, 0, 4, 0, 5, 0]) noContextState)
         = [[1 / 32768, 2 / 32768], [3 / 32768, 4 / 32768, 5 / 32768],
            [3 / 32768, 4 / 32768, 5 / 32768]]
     \<and> audioPlaybackContext (handleAudioChunk brokenBrowser (Some [3, 0, 4, 0, 5, 0]) noContextState)
         = None"
    using noContextState_value ctor(3) by simp
  have h6: "isBuffering twoQueuedState
     \<and> bufferThreshold \<le> length (audioBufferQueue twoQueuedState) + 1
     \<and> fst (base64ToPCMFloat32 (Some [3, 0, 4, 0, 5, 0]) twoQueuedState)
          = Some [3 / 32768, 4 / 32768, 5 / 32768]
     \<and> [3 / 32768, 4 / 32768, 5 / 32768] \<noteq> ([] :: real list)
     \<and> hasPlaybackContext twoQueuedState"
    using twoQueuedState_value nextChunk_decoded [of twoQueuedState]
    by (simp add: bufferThreshold_def hasPlaybackContext_def)
  from present h6 have cleared:
    "\<not> isBuffering (handleAudioChunk sampleBrowser (Some [3, 0, 4, 0, 5, 0]) twoQueuedState)"
    by blast
  have h1: "isBuffering speakingState
     \<and> length (audioBufferQueue speakingState) + length [(1::nat, Some [3, 0, 4, 0, 5, 0 :: 8 word])]
         < bufferThreshold"
    by (simp add: model_defs)
  have h2: "isBuffering twoQueuedState
     \<and> audioBufferQueue twoQueuedState = [[1 / 32768, 2 / 32768], [3 / 32768, 4 / 32768, 5 / 32768]]
     \<and> [1 / 32768, 2 / 32768] \<noteq> ([] :: real list) \<and> [3 / 32768, 4 / 32768, 5 / 32768] \<noteq> ([] :: real list)
     \<and> fst (base64ToPCMFloat32 (Some [3, 0, 4, 0, 5, 0]) twoQueuedState)
          = Some [3 / 32768, 4 / 32768, 5 / 32768]
     \<and> [3 / 32768, 4 / 32768, 5 / 32768] \<noteq> ([] :: real list)
     \<and> audioPlaybackContext twoQueuedState =
          Some \<lparr>ctxState = Running, currentTime = 0, started = [], resumeRequested = False,
                thenProcess = 0\<rparr>
     \<and> ctxState \<lparr>ctxState = Running, currentTime = 0, started = [], resumeRequested = False,
                thenProcess = 0\<rparr> = Running
     \<and> 0 \<le> currentTime \<lparr>ctxState = Running, currentTime = 0, started = [],
                resumeRequested = False, thenProcess = 0\<rparr>"
    using twoQueuedState_value nextChunk_decoded [of twoQueuedState] by simp
  have h3: "\<not> isBuffering playingState" by (simp add: model_defs)
  have h4: "audioPlaybackContext twoQueuedState =
          Some \<lparr>ctxState = Running, currentTime = 0, started = [], resumeRequested = False,
                thenProcess = 0\<rparr>
     \<and> ctxState \<lparr>ctxState = Running, currentTime = 0, started = [], resumeRequested = False,
                thenProcess = 0\<rparr> \<noteq> Closed
     \<and> 0 \<le> currentTime \<lparr>ctxState = Running, currentTime = 0, started = [],
                resumeRequested = False, thenProcess = 0\<rparr>
     \<and> [] \<notin> set (audioBufferQueue twoQueuedState)"
    using twoQueuedState_value by simp
  from inst h4 obtain c' where
    c': "audioPlaybackContext (handleWebSocketMessage sampleBrowser (AudioComplete 2) twoQueuedState)
           = Some c'"
        "map snd (started c') =
           map snd (started \<lparr>ctxState = Running, currentTime = 0, started = [],
                      resumeRequested = False, thenProcess = 0\<rparr>)
             @ map (\<lambda>q. real (length q) / 44100) (take 5 (audioBufferQueue twoQueuedState))"
    by blast
  have flushed: "map_option (map snd)
        (scheduledSources (handleWebSocketMessage sampleBrowser (AudioComplete 2) twoQueuedState))
       = Some [2 / 44100, 3 / 44100]"
    using c' twoQueuedState_value by (simp add: scheduledSources_def)
  from inst have
    "isBuffering (handleWebSocketMessage sampleBrowser (AudioComplete 2) twoQueuedState)
       = isBuffering twoQueuedState"
    "audioBufferQueue (handleWebSocketMessage sampleBrowser (AudioComplete 2) twoQueuedState)
       = drop 5 (audioBufferQueue twoQueuedState)"
    by blast+
  then have kept: "isBuffering (handleWebSocketMessage sampleBrowser (AudioComplete 2) twoQueuedState)"
    "audioBufferQueue (handleWebSocketMessage sampleBrowser (AudioComplete 2) twoQueuedState) = []"
    using twoQueuedState_value by simp_all
  from inst h1 h2 h3 have
    "audioPlaybackContext (run sampleBrowser (audioChunkEvents [(1, Some [3, 0, 4, 0, 5, 0])]) speakingState)
       = audioPlaybackContext speakingState
     \<and> isBuffering (run sampleBrowser (audioChunkEvents [(1, Some [3, 0, 4, 0, 5, 0])]) speakingState)
     \<and> \<not> isBuffering (handleAudioChunk sampleBrowser (Some [3, 0, 4, 0, 5, 0]) twoQueuedState)
     \<and> audioBufferQueue (handleAudioChunk sampleBrowser (Some [3, 0, 4, 0, 5, 0]) twoQueuedState) = []
     \<and> \<not> isBuffering (run sampleBrowser (audioChunkEvents [(3, Some [3, 0, 4, 0, 5, 0])]) playingState)"
    by blast
  with h1 h2 h3 flushed kept rebuilt unbuilt cleared noContextState_value show ?thesis by simp
qed

text \<open>
  C2 as stated fails: after a single chunk, \<open>audio_complete\<close> schedules what is queued,
  below the threshold, and the phase runs from Speaking to Listening without
  \<open>isBuffering\<close> ever being cleared.
\<close>

theorem buffering_before_playback_counterexample:
  "map conversationState
     (states sampleBrowser [firstChunk, WsMessage (AudioComplete 1), Elapse 2000, TimerFire 1]
        openingState)
     = [Processing, Speaking, Speaking, Speaking, Listening]
   \<and> map scheduledSources
     (states sampleBrowser [firstChunk, WsMessage (AudioComplete 1), Elapse 2000, TimerFire 1]
        openingState)
     = [Some [], Some [], Some [(1 / 10, 2 / 44100)], Some [(1 / 10, 2 / 44100)],
        Some [(1 / 10, 2 / 44100)]]
   \<and> map isBuffering
     (states sampleBrowser [firstChunk, WsMessage (AudioComplete 1), Elapse 2000, TimerFire 1]
        openingState)
     = [True, True, True, True, True]"
  by (simp add: model_defs)

subsection \<open>C3: the stuck-phase guard\<close>

text \<open>
  C3, as the code has it. A run of audio chunks that starts with \<open>isAudioPlaying\<close>
  unset, below the buffering threshold and with an output context, arms exactly one
  safety timer, due 15000 ms after the first chunk. Firing a safety timer does nothing
  before it is due or after it has run; when it runs, it acts only if the phase is
  Speaking and the session is active, and then does what \<open>audio_complete\<close> does with
  \<open>total_chunks\<close> set to the queue length plus one; after it has run it is no longer
  pending. When it acts, the drain timer it registers brings the phase to Listening
  once the drain delay has passed. No event other than its own firing changes a
  registered timer: nothing cancels it.
\<close>

theorem stuck_phase_guard:
  "(\<not> isAudioPlaying s1
      \<and> (isBuffering s1 \<longrightarrow> length (audioBufferQueue s1) + 1 < bufferThreshold)
      \<and> hasPlaybackContext s1 \<and> ps \<noteq> [] \<longrightarrow>
      timers (run b (audioChunkEvents ps) s1) =
        timers s1 @ [\<lparr>kind = SafetyTimeout, due = wallClock s1 + 15000, pending = True\<rparr>])
   \<and> (k < length (timers s2) \<and> kind (timers s2 ! k) = SafetyTimeout \<longrightarrow>
        step b (TimerFire k) s2 =
          (if pending (timers s2 ! k) \<and> due (timers s2 ! k) \<le> wallClock s2
           then (let s' = s2\<lparr>timers := (timers s2)[k := (timers s2 ! k)\<lparr>pending := False\<rparr>]\<rparr>
                 in if conversationState s2 = Speaking \<and> isConversationActive s2
                    then handleAudioComplete (int (length (audioBufferQueue s2)) + 1) s'
                    else s')
           else s2)
        \<and> (pending (timers s2 ! k) \<and> due (timers s2 ! k) \<le> wallClock s2 \<longrightarrow>
             \<not> pending (timers (step b (TimerFire k) s2) ! k)))
   \<and> (j < length (timers s3) \<and> kind (timers s3 ! j) = SafetyTimeout \<and> pending (timers s3 ! j)
        \<and> due (timers s3 ! j) \<le> wallClock s3
        \<and> conversationState s3 = Speaking \<and> isConversationActive s3 \<longrightarrow>
        conversationState
          (run b [TimerFire j,
                  Elapse (nat (waitTime (int (length (audioBufferQueue s3)) + 1))),
                  TimerFire (length (timers s3))] s3) = Listening)
   \<and> (i < length (timers s4) \<and> e \<noteq> TimerFire i \<longrightarrow>
        timers (step b e s4) ! i = timers s4 ! i)"
  using chunks_arm_one_guard [of s1 ps b] fire_guard [of k s2 b] fire_guard_once [of k s2 b]
    guard_forces_listening [of j s3 b] timer_not_cancelled [of i s4 e b]
  by blast

theorem stuck_phase_guard_witness:
  "\<not> isAudioPlaying openingState \<and> hasPlaybackContext openingState
   \<and> timers (run sampleBrowser
               (audioChunkEvents [(0, Some (wavHeader @ [1, 0, 2, 0])), (1, Some [3, 0, 4, 0, 5, 0])])
               openingState)
       = [\<lparr>kind = SafetyTimeout, due = 15000, pending = True\<rparr>]
   \<and> conversationState guardDueState = Speaking \<and> isConversationActive guardDueState
   \<and> timers guardDueState ! 0 = \<lparr>kind = SafetyTimeout, due = 15000, pending = True\<rparr>
   \<and> wallClock guardDueState = 15000
   \<and> \<not> pending (timers (step sampleBrowser (TimerFire 0) guardDueState) ! 0)
   \<and> conversationState
        (run sampleBrowser [TimerFire 0, Elapse 2000, TimerFire 1] guardDueState) = Listening
   \<and> timers (step sampleBrowser (WsMessage (AudioComplete 1)) guardDueState) ! 0
       = \<lparr>kind = SafetyTimeout, due = 15000, pending = True\<rparr>"
proof -
  note inst = stuck_phase_guard [of openingState
      "[(0, Some (wavHeader @ [1, 0, 2, 0])), (1, Some [3, 0, 4, 0, 5, 0])]" sampleBrowser
      0 guardDueState 0 guardDueState 0 guardDueState "WsMessage (AudioComplete 1)"]
  have h1: "\<not> isAudioPlaying openingState
      \<and> (isBuffering openingState \<longrightarrow> length (audioBufferQueue openingState) + 1 < bufferThreshold)
      \<and> hasPlaybackContext openingState
      \<and> [(0::nat, Some (wavHeader @ [1, 0, 2, 0])), (1, Some [3, 0, 4, 0, 5, 0])] \<noteq> []"
    using openingState_value by (simp add: bufferThreshold_def)
  have h2: "0 < length (timers guardDueState) \<and> kind (timers guardDueState ! 0) = SafetyTimeout
      \<and> pending (timers guardDueState ! 0)
      \<and> due (timers guardDueState ! 0) \<le> wallClock guardDueState
      \<and> conversationState guardDueState = Speaking \<and> isConversationActive guardDueState"
    using guardDueState_value by simp
  have e: "nat (waitTime (int (length (audioBufferQueue guardDueState)) + 1)) = 2000"
      "length (timers guardDueState) = 1"
    using guardDueState_value by (simp_all add: waitTime_def)
  from inst h1 h2 have
    "timers (run sampleBrowser
               (audioChunkEvents [(0, Some (wavHeader @ [1, 0, 2, 0])), (1, Some [3, 0, 4, 0, 5, 0])])
               openingState)
       = timers openingState @ [\<lparr>kind = SafetyTimeout, due = wallClock openingState + 15000, pending = True\<rparr>]"
    "\<not> pending (timers (step sampleBrowser (TimerFire 0) guardDueState) ! 0)"
    "conversationState
        (run sampleBrowser [TimerFire 0,
           Elapse (nat (waitTime (int (length (audioBufferQueue guardDueState)) + 1))),
           TimerFire (length (timers guardDueState))] guardDueState) = Listening"
    "timers (step sampleBrowser (WsMessage (AudioComplete 1)) guardDueState) ! 0
       = timers guardDueState ! 0"
    by blast+
  then show ?thesis using openingState_value guardDueState_value e by simp
qed

text \<open>
  C3 as stated fails, because no timer is ever cancelled. First run: \<open>audio_complete\<close>
  is processed 14 s into the phase, and one second later the guard still acts and
  registers a second drain timer. Second run: \<open>chat_complete\<close> resets \<open>isAudioPlaying\<close> in
  the middle of a Speaking phase, the next chunk arms a second guard, and both guards
  act within the same phase.
\<close>

theorem stuck_phase_guard_counterexample:
  "map conversationState
     (states sampleBrowser [Elapse 14000, WsMessage (AudioComplete 1), Elapse 1000, TimerFire 0]
        speakingState)
     = [Speaking, Speaking, Speaking, Speaking, Speaking]
   \<and> timers (run sampleBrowser
              [Elapse 14000, WsMessage (AudioComplete 1), Elapse 1000] speakingState)
     = [\<lparr>kind = SafetyTimeout, due = 15000, pending = True\<rparr>,
        \<lparr>kind = DrainTimeout, due = 16000, pending = True\<rparr>]
   \<and> timers (run sampleBrowser
              [Elapse 14000, WsMessage (AudioComplete 1), Elapse 1000, TimerFire 0] speakingState)
     = [\<lparr>kind = SafetyTimeout, due = 15000, pending = False\<rparr>,
        \<lparr>kind = DrainTimeout, due = 16000, pending = True\<rparr>,
        \<lparr>kind = DrainTimeout, due = 17000, pending = True\<rparr>]
   \<and> map conversationState
     (states sampleBrowser
        [WsMessage ChatComplete, nextChunk, Elapse 15000, TimerFire 0, TimerFire 1]
        speakingState)
     = [Speaking, Speaking, Speaking, Speaking, Speaking, Speaking]
   \<and> map timers
     (states sampleBrowser [TimerFire 0, TimerFire 1]
        (run sampleBrowser [WsMessage ChatComplete, nextChunk, Elapse 15000] speakingState))
     = [[\<lparr>kind = SafetyTimeout, due = 15000, pending = True\<rparr>,
         \<lparr>kind = SafetyTimeout, due = 15000, pending = True\<rparr>],
        [\<lparr>kind = SafetyTimeout, due = 15000, pending = False\<rparr>,
         \<lparr>kind = SafetyTimeout, due = 15000, pending = True\<rparr>,
         \<lparr>kind = DrainTimeout, due = 17000, pending = True\<rparr>],
        [\<lparr>kind = SafetyTimeout, due = 15000, pending = False\<rparr>,
         \<lparr>kind = SafetyTimeout, due = 15000, pending = False\<rparr>,
         \<lparr>kind = DrainTimeout, due = 17000, pending = True\<rparr>,
         \<lparr>kind = DrainTimeout, due = 17000, pending = True\<rparr>]]"
  by (simp add: model_defs)

subsection \<open>C4: the drain delay of \<open>audio_complete\<close>\<close>

text \<open>
  C4, as the code has it. On an \<open>audio_complete\<close> message with \<open>total_chunks = n\<close> the
  drain delay is \<open>n * 1000\<close> clamped to the interval from 2000 to 5000 (4000 for
  \<open>n = 4\<close>). The handler itself leaves the phase as it is and registers one drain
  timer, due that delay after the current time. A timer does nothing before it is
  due. Firing a drain timer gives Listening exactly when it is due, the session is
  active and the phase is Speaking, and leaves the phase unchanged otherwise; so in an
  active Speaking session the message, the passing of its delay and the firing of its
  timer end in Listening. A step from Speaking to Listening is always the firing of a
  drain timer that is due, in an active session: of some drain timer, not necessarily
  the one this message registered.
\<close>

theorem audio_complete_drain_delay:
  "waitTime n = (if n * 1000 < 2000 then 2000 else if 5000 < n * 1000 then 5000 else n * 1000)
   \<and> waitTime 4 = 4000 \<and> 2000 \<le> waitTime n \<and> waitTime n \<le> 5000
   \<and> conversationState (handleWebSocketMessage b (AudioComplete n) s) = conversationState s
   \<and> timers (handleWebSocketMessage b (AudioComplete n) s) =
       timers s @ [\<lparr>kind = DrainTimeout, due = wallClock s + nat (waitTime n), pending = True\<rparr>]
   \<and> (conversationState t = Speaking \<and> conversationState (step b e t) = Listening \<longrightarrow>
        (\<exists>k. e = TimerFire k \<and> k < length (timers t) \<and> kind (timers t ! k) = DrainTimeout
           \<and> pending (timers t ! k) \<and> due (timers t ! k) \<le> wallClock t
           \<and> isConversationActive t))
   \<and> (j < length (timers t) \<and> kind (timers t ! j) = DrainTimeout \<and> pending (timers t ! j) \<longrightarrow>
        conversationState (step b (TimerFire j) t) =
          (if due (timers t ! j) \<le> wallClock t \<and> isConversationActive t
              \<and> conversationState t = Speaking
           then Listening else conversationState t))
   \<and> (wallClock u < due (timers u ! i) \<longrightarrow> step b (TimerFire i) u = u)
   \<and> (conversationState v = Speaking \<and> isConversationActive v \<longrightarrow>
        conversationState
          (run b [WsMessage (AudioComplete n), Elapse (nat (waitTime n)),
                  TimerFire (length (timers v))] v) = Listening)"
proof (intro conjI impI)
  show "waitTime n = (if n * 1000 < 2000 then 2000 else if 5000 < n * 1000 then 5000 else n * 1000)"
    by (simp add: waitTime_def)
  show "waitTime 4 = 4000" by (simp add: waitTime_def)
  show "2000 \<le> waitTime n" by (simp add: waitTime_def)
  show "waitTime n \<le> 5000" by (simp add: waitTime_def)
  show "conversationState (handleWebSocketMessage b (AudioComplete n) s) = conversationState s"
    by (simp add: handleWebSocketMessage_def handleAudioComplete_frame)
  show "timers (handleWebSocketMessage b (AudioComplete n) s) =
       timers s @ [\<lparr>kind = DrainTimeout, due = wallClock s + nat (waitTime n), pending = True\<rparr>]"
    by (simp add: handleWebSocketMessage_def handleAudioComplete_frame)
next
  assume "conversationState t = Speaking \<and> conversationState (step b e t) = Listening"
  then show "\<exists>k. e = TimerFire k \<and> k < length (timers t) \<and> kind (timers t ! k) = DrainTimeout
           \<and> pending (timers t ! k) \<and> due (timers t ! k) \<le> wallClock t \<and> isConversationActive t"
    using speaking_to_listening_step [of t b e] by blast
next
  assume "j < length (timers t) \<and> kind (timers t ! j) = DrainTimeout \<and> pending (timers t ! j)"
  then show "conversationState (step b (TimerFire j) t) =
          (if due (timers t ! j) \<le> wallClock t \<and> isConversationActive t
              \<and> conversationState t = Speaking
           then Listening else conversationState t)"
    using fire_drain_phase [of j t b] by blast
next
  assume "wallClock u < due (timers u ! i)"
  then show "step b (TimerFire i) u = u" by (rule fire_before_due)
next
  assume "conversationState v = Speaking \<and> isConversationActive v"
  then show "conversationState
          (run b [WsMessage (AudioComplete n), Elapse (nat (waitTime n)),
                  TimerFire (length (timers v))] v) = Listening"
    using audio_complete_then_listening [of v b n] by blast
qed

theorem audio_complete_drain_delay_witness:
  "conversationState drainDueState = Speaking
   \<and> conversationState (step sampleBrowser (TimerFire 1) drainDueState) = Listening
   \<and> timers drainDueState ! 1 = \<lparr>kind = DrainTimeout, due = 4000, pending = True\<rparr>
   \<and> due (timers drainDueState ! 1) \<le> wallClock drainDueState
   \<and> isConversationActive drainDueState
   \<and> timers drainPendingState ! 1 = \<lparr>kind = DrainTimeout, due = 4000, pending = True\<rparr>
   \<and> wallClock drainPendingState = 0
   \<and> step sampleBrowser (TimerFire 1) drainPendingState = drainPendingState
   \<and> conversationState speakingState = Speaking \<and> isConversationActive speakingState
   \<and> conversationState
        (run sampleBrowser [WsMessage (AudioComplete 4), Elapse 4000, TimerFire 1] speakingState)
       = Listening"
proof -
  have before: "conversationState drainDueState = Speaking"
    by (simp add: model_defs)
  have after: "conversationState (step sampleBrowser (TimerFire 1) drainDueState) = Listening"
    by (simp add: model_defs)
  have entry: "timers drainDueState ! 1 = \<lparr>kind = DrainTimeout, due = 4000, pending = True\<rparr>"
    by (simp add: model_defs)
  have early: "timers drainPendingState ! 1 = \<lparr>kind = DrainTimeout, due = 4000, pending = True\<rparr>
      \<and> wallClock drainPendingState = 0"
    by (simp add: model_defs)
  have sp: "conversationState speakingState = Speaking \<and> isConversationActive speakingState
      \<and> length (timers speakingState) = 1"
    by (simp add: model_defs)
  note inst = audio_complete_drain_delay [where n = 4 and b = sampleBrowser
      and s = speakingState and t = drainDueState and e = "TimerFire 1" and j = 1
      and u = drainPendingState and i = 1 and v = speakingState]
  from inst before after have
    "\<exists>k. TimerFire 1 = TimerFire k \<and> k < length (timers drainDueState)
          \<and> kind (timers drainDueState ! k) = DrainTimeout
          \<and> pending (timers drainDueState ! k)
          \<and> due (timers drainDueState ! k) \<le> wallClock drainDueState
          \<and> isConversationActive drainDueState"
    by blast
  then have due: "due (timers drainDueState ! 1) \<le> wallClock drainDueState
     \<and> isConversationActive drainDueState"
    by auto
  have "wallClock drainPendingState < due (timers drainPendingState ! 1)"
    using early by simp
  with inst have noop: "step sampleBrowser (TimerFire 1) drainPendingState = drainPendingState"
    by blast
  from inst sp have
    "conversationState
        (run sampleBrowser [WsMessage (AudioComplete 4), Elapse (nat (waitTime 4)),
           TimerFire (length (timers speakingState))] speakingState) = Listening"
    by blast
  then have fin: "conversationState
        (run sampleBrowser [WsMessage (AudioComplete 4), Elapse 4000, TimerFire 1] speakingState)
       = Listening"
    using sp by (simp add: waitTime_def)
  from before after entry due early noop sp fin show ?thesis by simp
qed

text \<open>
  C4 as stated fails: the transition need not wait for the delay of this message. The
  safety timer acts at 15 s and registers a drain timer due at 17 s; an
  \<open>audio_complete\<close> with five chunks arrives at 16 s and registers its own, due at 21 s;
  at 17 s the first drain timer fires and the phase is Listening, one second after the
  message.
\<close>

theorem audio_complete_drain_delay_counterexample:
  "map conversationState (states sampleBrowser guardThenCompleteEvents speakingState)
     = [Speaking, Speaking, Speaking, Speaking, Speaking, Speaking, Listening]
   \<and> map wallClock (states sampleBrowser guardThenCompleteEvents speakingState)
     = [0, 15000, 15000, 16000, 16000, 17000, 17000]
   \<and> timers (run sampleBrowser guardThenCompleteEvents speakingState)
     = [\<lparr>kind = SafetyTimeout, due = 15000, pending = False\<rparr>,
        \<lparr>kind = DrainTimeout, due = 17000, pending = False\<rparr>,
        \<lparr>kind = DrainTimeout, due = 21000, pending = True\<rparr>]"
  by (simp add: model_defs)

subsection \<open>C5: stripping the container header\<close>




subsection \<open>C6: capture encoding followed by playback decoding\<close>

text \<open>
  C6. A sample \<open>x\<close> between -1 and 1 is encoded by the capture path (scaled by 32768,
  clamped to the 16-bit range, truncated) and decoded by the playback path (divided by
  32768): the result is at least -1, less than 1, and within 1/32768 of \<open>x\<close>. The same
  through the bytes: a block of such samples, laid out as the little-endian bytes of
  the frame and decoded by \<open>base64ToPCMFloat32\<close> as raw PCM (header already consumed),
  comes back with as many samples as were encoded, each of them the decoded value of
  its own sample. The encoder's inputs are 32-bit floats and both the scaling and the
  division are by a power of two, so the real arithmetic here is the arithmetic of
  the program.
\<close>

theorem capture_playback_round_trip:
  "(- 1 \<le> x \<and> x \<le> 1 \<longrightarrow>
      - 1 \<le> real_of_int (sint (floatToInt16 x)) / 32768
      \<and> real_of_int (sint (floatToInt16 x)) / 32768 < 1
      \<and> \<bar>real_of_int (sint (floatToInt16 x)) / 32768 - x\<bar> \<le> 1 / 32768)
   \<and> ((\<forall>x \<in> set xs. - 1 \<le> x \<and> x \<le> 1) \<and> wavHeaderProcessed s \<longrightarrow>
        (\<exists>ys. fst (base64ToPCMFloat32 (Some (bufferBytes (map floatToInt16 xs))) s) = Some ys
           \<and> length ys = length xs
           \<and> (\<forall>i < length xs. ys ! i = real_of_int (sint (floatToInt16 (xs ! i))) / 32768
                  \<and> - 1 \<le> ys ! i \<and> ys ! i < 1
                  \<and> \<bar>ys ! i - xs ! i\<bar> \<le> 1 / 32768)))"
proof -
  have sample: "- 1 \<le> real_of_int (sint (floatToInt16 x)) / 32768
      \<and> real_of_int (sint (floatToInt16 x)) / 32768 < 1
      \<and> \<bar>real_of_int (sint (floatToInt16 x)) / 32768 - x\<bar> \<le> 1 / 32768"
    if x: "- 1 \<le> x \<and> x \<le> 1" for x
  proof -
    have r: "- 32768 \<le> sint (floatToInt16 x)" "sint (floatToInt16 x) \<le> 32767"
      using sint_16_range [of "floatToInt16 x"] by simp_all
    have "real_of_int (- 32768) \<le> real_of_int (sint (floatToInt16 x))"
      using r(1) by (simp only: of_int_le_iff)
    then have lo: "- 1 \<le> real_of_int (sint (floatToInt16 x)) / 32768" by simp
    have "real_of_int (sint (floatToInt16 x)) \<le> real_of_int 32767"
      using r(2) by (simp only: of_int_le_iff)
    then have hi: "real_of_int (sint (floatToInt16 x)) / 32768 < 1" by simp
    have "\<bar>real_of_int (sint (floatToInt16 x)) / 32768 - x\<bar> \<le> 1 / 32768"
      using x by (intro floatToInt16_close) simp_all
    with lo hi show ?thesis by simp
  qed
  have samples: "\<exists>ys. fst (base64ToPCMFloat32 (Some (bufferBytes (map floatToInt16 xs))) s) = Some ys
           \<and> length ys = length xs
           \<and> (\<forall>i < length xs. ys ! i = real_of_int (sint (floatToInt16 (xs ! i))) / 32768
                  \<and> - 1 \<le> ys ! i \<and> ys ! i < 1
                  \<and> \<bar>ys ! i - xs ! i\<bar> \<le> 1 / 32768)"
    if h: "(\<forall>x \<in> set xs. - 1 \<le> x \<and> x \<le> 1) \<and> wavHeaderProcessed s"
  proof -
    let ?ys = "map (\<lambda>w. real_of_int (sint w) / 32768) (map floatToInt16 xs)"
    have dec: "fst (base64ToPCMFloat32 (Some (bufferBytes (map floatToInt16 xs))) s) = Some ?ys"
      using h by (simp add: decode_bufferBytes)
    have "\<forall>i < length xs. ?ys ! i = real_of_int (sint (floatToInt16 (xs ! i))) / 32768
            \<and> - 1 \<le> ?ys ! i \<and> ?ys ! i < 1 \<and> \<bar>?ys ! i - xs ! i\<bar> \<le> 1 / 32768"
    proof (intro allI impI)
      fix i assume i: "i < length xs"
      then have "xs ! i \<in> set xs" by simp
      with h have x: "- 1 \<le> xs ! i \<and> xs ! i \<le> 1" by auto
      have y: "?ys ! i = real_of_int (sint (floatToInt16 (xs ! i))) / 32768" using i by simp
      show "?ys ! i = real_of_int (sint (floatToInt16 (xs ! i))) / 32768
            \<and> - 1 \<le> ?ys ! i \<and> ?ys ! i < 1 \<and> \<bar>?ys ! i - xs ! i\<bar> \<le> 1 / 32768"
        using sample [OF x] unfolding y by simp
    qed
    with dec show ?thesis by (intro exI [of _ ?ys]) simp
  qed
  from sample samples show ?thesis by blast
qed

theorem capture_playback_round_trip_witness:
  "- 1 \<le> (1::real) \<and> (1::real) \<le> 1 \<and> - 1 \<le> (- 1 / 3 ::real) \<and> (- 1 / 3 ::real) \<le> 1
   \<and> real_of_int (sint (floatToInt16 1)) / 32768 = 32767 / 32768
   \<and> \<bar>real_of_int (sint (floatToInt16 1)) / 32768 - 1\<bar> \<le> 1 / 32768
   \<and> wavHeaderProcessed (initialState\<lparr>wavHeaderProcessed := True\<rparr>)
   \<and> (\<exists>ys. fst (base64ToPCMFloat32 (Some (bufferBytes (map floatToInt16 [1, - 1 / 3])))
                   (initialState\<lparr>wavHeaderProcessed := True\<rparr>)) = Some ys
           \<and> length ys = 2
           \<and> - 1 \<le> ys ! 0 \<and> ys ! 0 < 1 \<and> \<bar>ys ! 0 - 1\<bar> \<le> 1 / 32768
           \<and> - 1 \<le> ys ! 1 \<and> ys ! 1 < 1 \<and> \<bar>ys ! 1 - (- 1 / 3)\<bar> \<le> 1 / 32768)"
proof -
  have h: "(\<forall>x \<in> set [1, - 1 / 3 :: real]. - 1 \<le> x \<and> x \<le> 1)
      \<and> wavHeaderProcessed (initialState\<lparr>wavHeaderProcessed := True\<rparr>)"
    by simp
  have one: "- 1 \<le> (1::real) \<and> (1::real) \<le> 1" by simp
  have v: "real_of_int (sint (floatToInt16 1)) / 32768 = 32767 / 32768"
    by (simp add: floatToInt16_def toInt16_def truncateNumber_def)
  note inst = capture_playback_round_trip [where x = 1 and xs = "[1, - 1 / 3]"
      and s = "initialState\<lparr>wavHeaderProcessed := True\<rparr>"]
  from inst one have c: "\<bar>real_of_int (sint (floatToInt16 1)) / 32768 - 1\<bar> \<le> 1 / 32768"
    by blast
  from inst h obtain ys where
    ys: "fst (base64ToPCMFloat32 (Some (bufferBytes (map floatToInt16 [1, - 1 / 3])))
              (initialState\<lparr>wavHeaderProcessed := True\<rparr>)) = Some ys"
        "length ys = length [1, - 1 / 3 :: real]"
        "\<forall>i < length [1, - 1 / 3 :: real].
             ys ! i = real_of_int (sint (floatToInt16 ([1, - 1 / 3] ! i))) / 32768
             \<and> - 1 \<le> ys ! i \<and> ys ! i < 1
             \<and> \<bar>ys ! i - [1, - 1 / 3] ! i\<bar> \<le> 1 / 32768"
    by blast
  from ys(3) have "- 1 \<le> ys ! 0 \<and> ys ! 0 < 1 \<and> \<bar>ys ! 0 - 1\<bar> \<le> 1 / 32768"
    by (metis length_Cons nth_Cons_0 zero_less_Suc)
  moreover from ys(3) have "- 1 \<le> ys ! 1 \<and> ys ! 1 < 1 \<and> \<bar>ys ! 1 - (- 1 / 3)\<bar> \<le> 1 / 32768"
    by fastforce
  ultimately show ?thesis using ys(1,2) h v c by auto
qed

subsection \<open>C7: what teardown does and does not do\<close>

text \<open>
  C7, as the code has it. \<open>resetToIdle\<close> sets the phase to Idle, clears the active flag
  and closes and drops the capture context, the channel and the output context, so
  that nothing scheduled on that context remains; it leaves every timer, the queue and
  the playhead as they were. \<open>endConversation\<close> sets the phase to Ending, clears the
  active flag and arms the goodbye timer, due 8000 ms later, and leaves the output
  context, the queue and the playhead alone. The goodbye timer, when it runs, tears
  down to Idle. In an inactive session a safety or drain timer that fires changes
  neither the phase nor the active flag, the output context or the queue. No event
  other than its own firing changes a registered timer: nothing cancels it.
\<close>

theorem teardown_keeps_timers_and_queue:
  "conversationState (resetToIdle s) = Idle \<and> \<not> isConversationActive (resetToIdle s)
   \<and> websocket (resetToIdle s) = None \<and> audioContext (resetToIdle s) = None
   \<and> audioPlaybackContext (resetToIdle s) = None
   \<and> timers (resetToIdle s) = timers s
   \<and> audioBufferQueue (resetToIdle s) = audioBufferQueue s
   \<and> audioPlayheadTime (resetToIdle s) = audioPlayheadTime s
   \<and> conversationState (endConversation s) = Ending \<and> \<not> isConversationActive (endConversation s)
   \<and> timers (endConversation s) =
        timers s @ [\<lparr>kind = GoodbyeTimeout, due = wallClock s + 8000, pending = True\<rparr>]
   \<and> audioPlaybackContext (endConversation s) = audioPlaybackContext s
   \<and> audioBufferQueue (endConversation s) = audioBufferQueue s
   \<and> audioPlayheadTime (endConversation s) = audioPlayheadTime s
   \<and> (k < length (timers t) \<and> kind (timers t ! k) = GoodbyeTimeout \<and> pending (timers t ! k)
        \<and> due (timers t ! k) \<le> wallClock t \<longrightarrow>
        conversationState (step b (TimerFire k) t) = Idle
        \<and> \<not> isConversationActive (step b (TimerFire k) t)
        \<and> audioPlaybackContext (step b (TimerFire k) t) = None
        \<and> websocket (step b (TimerFire k) t) = None)
   \<and> (\<not> isConversationActive u \<and> j < length (timers u) \<and> kind (timers u ! j) \<noteq> GoodbyeTimeout \<longrightarrow>
        conversationState (step b (TimerFire j) u) = conversationState u
        \<and> \<not> isConversationActive (step b (TimerFire j) u)
        \<and> audioPlaybackContext (step b (TimerFire j) u) = audioPlaybackContext u
        \<and> audioBufferQueue (step b (TimerFire j) u) = audioBufferQueue u)
   \<and> (i < length (timers v) \<and> e \<noteq> TimerFire i \<longrightarrow>
        timers (step b e v) ! i = timers v ! i)"
  using resetToIdle_effect [of s] endConversation_effect [of s] goodbye_timer_effect [of k t b]
    stale_timer_inactive [of u j b] timer_not_cancelled [of i v e b]
  by simp

theorem teardown_keeps_timers_and_queue_witness:
  "timers endingState ! 1 = \<lparr>kind = GoodbyeTimeout, due = 8000, pending = True\<rparr>
   \<and> wallClock endingState = 8000
   \<and> conversationState (step sampleBrowser (TimerFire 1) endingState) = Idle
   \<and> audioPlaybackContext (step sampleBrowser (TimerFire 1) endingState) = None
   \<and> \<not> isConversationActive endingState
   \<and> timers endingState ! 0 = \<lparr>kind = SafetyTimeout, due = 15000, pending = True\<rparr>
   \<and> conversationState (step sampleBrowser (TimerFire 0) endingState) = Ending
   \<and> audioBufferQueue (step sampleBrowser (TimerFire 0) endingState) = [[1 / 32768, 2 / 32768]]
   \<and> timers (step sampleBrowser WsError endingState) ! 1
       = \<lparr>kind = GoodbyeTimeout, due = 8000, pending = True\<rparr>"
proof -
  have v: "timers endingState = [\<lparr>kind = SafetyTimeout, due = 15000, pending = True\<rparr>,
                                 \<lparr>kind = GoodbyeTimeout, due = 8000, pending = True\<rparr>]
     \<and> wallClock endingState = 8000 \<and> \<not> isConversationActive endingState
     \<and> conversationState endingState = Ending
     \<and> audioBufferQueue endingState = [[1 / 32768, 2 / 32768]]"
    by (simp add: model_defs)
  note inst = teardown_keeps_timers_and_queue [where k = 1 and t = endingState
      and b = sampleBrowser and u = endingState and j = 0 and i = 1 and v = endingState
      and e = WsError]
  have h1: "1 < length (timers endingState) \<and> kind (timers endingState ! 1) = GoodbyeTimeout
      \<and> pending (timers endingState ! 1) \<and> due (timers endingState ! 1) \<le> wallClock endingState"
    using v by simp
  have h2: "\<not> isConversationActive endingState \<and> 0 < length (timers endingState)
      \<and> kind (timers endingState ! 0) \<noteq> GoodbyeTimeout"
    using v by simp
  from inst h1 h2 have
    "conversationState (step sampleBrowser (TimerFire 1) endingState) = Idle"
    "audioPlaybackContext (step sampleBrowser (TimerFire 1) endingState) = None"
    "conversationState (step sampleBrowser (TimerFire 0) endingState) = conversationState endingState"
    "audioBufferQueue (step sampleBrowser (TimerFire 0) endingState) = audioBufferQueue endingState"
    "timers (step sampleBrowser WsError endingState) ! 1 = timers endingState ! 1"
    by blast+
  then show ?thesis using v by simp
qed

text \<open>
  C7 as stated fails: the program never cancels a timer and teardown does not touch
  the queue or the playhead. After a transport error the safety timer is still
  pending, and the queue and the playhead are as before. A drain timer that fires
  after the teardown sets \<open>isBuffering\<close> again. And a goodbye timer left over from an
  ended conversation shuts down the conversation started after it.
\<close>

theorem teardown_keeps_timers_and_queue_counterexample:
  "timers (run sampleBrowser [WsError] twoQueuedState)
     = [\<lparr>kind = SafetyTimeout, due = 15000, pending = True\<rparr>]
   \<and> audioBufferQueue (run sampleBrowser [WsError] twoQueuedState)
     = [[1 / 32768, 2 / 32768], [3 / 32768, 4 / 32768, 5 / 32768]]
   \<and> audioPlayheadTime (run sampleBrowser [WsError] twoQueuedState) = 1 / 10
   \<and> map conversationState
       (states sampleBrowser [WsMessage (AudioComplete 3), WsError, Elapse 3000, TimerFire 1]
          playingState)
     = [Speaking, Speaking, Idle, Idle, Idle]
   \<and> map isBuffering
       (states sampleBrowser [WsMessage (AudioComplete 3), WsError, Elapse 3000, TimerFire 1]
          playingState)
     = [False, False, False, False, True]
   \<and> map conversationState
       (states sampleBrowser
          [ConversationButton, WsError, ConversationButton, WsOpen, MicGranted Running,
           Elapse 8000, TimerFire 1] speakingState)
     = [Speaking, Ending, Idle, Listening, Listening, Listening, Listening, Idle]"
  by (simp add: model_defs)

subsection \<open>C8: the notice on a lost connection\<close>

text \<open>
  C8, as the code has it. A close event in an active session drives the phase to Idle,
  clears the active flag and displays the connection-lost notice once; a close event
  in an inactive session changes nothing. An error event, in any session, active or
  not, drives the phase to Idle and displays the connection-error notice once. An
  error followed by the close of the same channel displays one notice in all.
\<close>

theorem connection_loss_notice:
  "(isConversationActive s \<longrightarrow>
      conversationState (step b WsClose s) = Idle
      \<and> \<not> isConversationActive (step b WsClose s)
      \<and> statusDisplay (step b WsClose s) = statusDisplay s @ [StatusConnectionLost])
   \<and> (\<not> isConversationActive s \<longrightarrow> step b WsClose s = s)
   \<and> conversationState (step b WsError s) = Idle
   \<and> \<not> isConversationActive (step b WsError s)
   \<and> statusDisplay (step b WsError s) = statusDisplay s @ [StatusConnectionError]
   \<and> statusDisplay (run b [WsError, WsClose] s) = statusDisplay s @ [StatusConnectionError]"
  by (simp add: step_def onclose_def onerror_def resetToIdle_def closeConnections_def
        updateStatus_def)

theorem connection_loss_notice_witness:
  "isConversationActive speakingState
   \<and> conversationState (step sampleBrowser WsClose speakingState) = Idle
   \<and> statusDisplay (step sampleBrowser WsClose speakingState)
       = [StatusConnecting, StatusRequestingMic, StatusListening, StatusProcessing,
          StatusThinking ''What's the weather'', StatusSpeaking, StatusConnectionLost]
   \<and> \<not> isConversationActive endingState
   \<and> step sampleBrowser WsClose endingState = endingState"
proof -
  have h1: "isConversationActive speakingState" by (simp add: model_defs)
  have h2: "\<not> isConversationActive endingState" by (simp add: model_defs)
  have v: "statusDisplay speakingState
       = [StatusConnecting, StatusRequestingMic, StatusListening, StatusProcessing,
          StatusThinking ''What's the weather'', StatusSpeaking]"
    by (simp add: model_defs)
  from connection_loss_notice [of speakingState sampleBrowser] h1
  have "conversationState (step sampleBrowser WsClose speakingState) = Idle"
    "statusDisplay (step sampleBrowser WsClose speakingState)
       = statusDisplay speakingState @ [StatusConnectionLost]"
    by blast+
  moreover from connection_loss_notice [of endingState sampleBrowser] h2
  have "step sampleBrowser WsClose endingState = endingState" by blast
  ultimately show ?thesis using h1 h2 v by simp
qed

text \<open>
  C8 as stated fails on the error path. In an active session an error displays the
  connection-error notice, not the connection-lost one; and after the user has ended
  the conversation, when the session is no longer active, an error still displays it.
\<close>

theorem connection_loss_notice_counterexample:
  "isConversationActive speakingState
   \<and> statusDisplay (run sampleBrowser [WsError] speakingState)
       = statusDisplay speakingState @ [StatusConnectionError]
   \<and> map isConversationActive (states sampleBrowser [ConversationButton, WsError] speakingState)
       = [True, False, False]
   \<and> statusDisplay (run sampleBrowser [ConversationButton, WsError] speakingState)
       = statusDisplay speakingState @ [StatusGoodbye, StatusConnectionError]"
  by (simp add: model_defs)

subsection \<open>C9: \<open>turn_complete\<close> and the user turn\<close>

text \<open>
  C9, as the code has it. A \<open>turn_complete\<close> message sets the phase to Processing,
  whatever the phase was, and appends to the history exactly one turn, by the user,
  with the final transcript as its text. The handlers of \<open>audio_chunk\<close> and
  \<open>audio_complete\<close> do not look for it: an audio chunk sets the phase to Speaking from
  any phase, \<open>audio_complete\<close> keeps the phase, and neither touches the history.
\<close>

theorem turn_complete_appends_user_turn:
  "conversationState (handleWebSocketMessage b (TurnComplete final_transcript) s) = Processing
   \<and> chatHistory (handleWebSocketMessage b (TurnComplete final_transcript) s)
       = chatHistory s @ [\<lparr>sender = User, message = final_transcript, timestamp = wallClock s\<rparr>]
   \<and> conversationState (handleWebSocketMessage b (AudioChunk i a) s) = Speaking
   \<and> chatHistory (handleWebSocketMessage b (AudioChunk i a) s) = chatHistory s
   \<and> conversationState (handleWebSocketMessage b (AudioComplete n) s) = conversationState s
   \<and> chatHistory (handleWebSocketMessage b (AudioComplete n) s) = chatHistory s"
proof -
  have "chatHistory (handleAudioChunk b a s) = chatHistory s"
    by (simp add: handleAudioChunk_stages armSafety_frame afterDecode_frame base64_frame
          enterSpeaking_frame)
  moreover have "chatHistory (handleAudioComplete n s) = chatHistory s"
    by (simp add: handleAudioComplete_def Let_def setTimeout_def updateStatus_def process_frame)
  ultimately show ?thesis
    by (simp add: handleWebSocketMessage_def handleTurnComplete_def addMessageToChat_def
          updateStatus_def handleAudioChunk_phase handleAudioComplete_frame)
qed

theorem turn_complete_appends_user_turn_witness:
  "conversationState listeningState = Listening
   \<and> conversationState
        (handleWebSocketMessage sampleBrowser (TurnComplete ''What's the weather'') listeningState)
       = Processing
   \<and> chatHistory
        (handleWebSocketMessage sampleBrowser (TurnComplete ''What's the weather'') listeningState)
       = [\<lparr>sender = User, message = ''What's the weather'', timestamp = 0\<rparr>]"
proof -
  have v: "conversationState listeningState = Listening \<and> chatHistory listeningState = []
      \<and> wallClock listeningState = 0"
    by (simp add: model_defs)
  from turn_complete_appends_user_turn [of sampleBrowser "''What's the weather''" listeningState]
  have "conversationState
        (handleWebSocketMessage sampleBrowser (TurnComplete ''What's the weather'') listeningState)
       = Processing"
    "chatHistory
        (handleWebSocketMessage sampleBrowser (TurnComplete ''What's the weather'') listeningState)
       = chatHistory listeningState
           @ [\<lparr>sender = User, message = ''What's the weather'', timestamp = wallClock listeningState\<rparr>]"
    by blast+
  then show ?thesis using v by simp
qed

text \<open>
  C9 as stated fails in its second half: no message order is enforced. In a session
  that is Listening and has seen no \<open>turn_complete\<close>, an audio chunk is accepted: the
  phase becomes Speaking and the samples are queued, with no user turn in the history.
\<close>

theorem turn_complete_appends_user_turn_counterexample:
  "map conversationState
     (states sampleBrowser [ConversationButton, WsOpen, MicGranted Running, firstChunk]
        initialState)
     = [Idle, Listening, Listening, Listening, Speaking]
   \<and> audioBufferQueue
       (run sampleBrowser [ConversationButton, WsOpen, MicGranted Running, firstChunk]
          initialState)
     = [[1 / 32768, 2 / 32768]]
   \<and> chatHistory
       (run sampleBrowser [ConversationButton, WsOpen, MicGranted Running, firstChunk]
          initialState)
     = []"
  by (simp add: model_defs)

subsection \<open>C10: an audio chunk in any phase\<close>

text \<open>
  C10, as the code has it. In every phase an \<open>audio_chunk\<close> message sets the phase to
  Speaking; the handler has no precondition on the phase. When the payload decodes to
  at least one sample, the samples are appended to the queue before the buffering
  logic runs: while buffering below the threshold the queue afterwards is the old
  queue with the samples at its end, and while playing the extended queue is handed to
  the scheduler, which takes up to five chunks off its front. When the payload does
  not decode, or decodes to no sample, the queue is left as it was.
\<close>

theorem audio_chunk_in_any_phase:
  "conversationState (handleWebSocketMessage b (AudioChunk i a) s) = Speaking
   \<and> (fst (base64ToPCMFloat32 a s) = Some pcm \<and> pcm \<noteq> [] \<longrightarrow>
        handleWebSocketMessage b (AudioChunk i a) s =
          armSafety (enqueueChunk b pcm (snd (base64ToPCMFloat32 a (enterSpeaking s)))))
   \<and> (fst (base64ToPCMFloat32 a s) = Some pcm \<and> pcm \<noteq> [] \<and> isBuffering s
        \<and> length (audioBufferQueue s) + 1 < bufferThreshold \<longrightarrow>
        audioBufferQueue (handleWebSocketMessage b (AudioChunk i a) s) = audioBufferQueue s @ [pcm])
   \<and> (fst (base64ToPCMFloat32 a s) = Some pcm \<and> pcm \<noteq> [] \<and> \<not> isBuffering s \<longrightarrow>
        audioBufferQueue (handleWebSocketMessage b (AudioChunk i a) s)
          = drop 5 (audioBufferQueue s @ [pcm]))
   \<and> (fst (base64ToPCMFloat32 a s) = None \<or> fst (base64ToPCMFloat32 a s) = Some [] \<longrightarrow>
        audioBufferQueue (handleWebSocketMessage b (AudioChunk i a) s) = audioBufferQueue s)"
  using chunk_enqueued [of a s pcm b] chunk_queued_while_buffering [of a s pcm b]
    chunk_processed_while_playing [of a s pcm b] chunk_queue_unchanged [of a s b]
  by (simp add: handleWebSocketMessage_def handleAudioChunk_phase)

theorem audio_chunk_in_any_phase_witness:
  "conversationState endingState = Ending
   \<and> fst (base64ToPCMFloat32 (Some [3, 0, 4, 0, 5, 0]) endingState)
       = Some [3 / 32768, 4 / 32768, 5 / 32768]
   \<and> isBuffering endingState
   \<and> conversationState
       (handleWebSocketMessage sampleBrowser (AudioChunk 1 (Some [3, 0, 4, 0, 5, 0])) endingState)
       = Speaking
   \<and> audioBufferQueue
       (handleWebSocketMessage sampleBrowser (AudioChunk 1 (Some [3, 0, 4, 0, 5, 0])) endingState)
       = [[1 / 32768, 2 / 32768], [3 / 32768, 4 / 32768, 5 / 32768]]
   \<and> fst (base64ToPCMFloat32 None endingState) = None
   \<and> audioBufferQueue (handleWebSocketMessage sampleBrowser (AudioChunk 2 None) endingState)
       = [[1 / 32768, 2 / 32768]]"
proof -
  have v: "conversationState endingState = Ending \<and> isBuffering endingState
      \<and> audioBufferQueue endingState = [[1 / 32768, 2 / 32768]]
      \<and> wavHeaderProcessed endingState"
    by (simp add: model_defs)
  have d: "fst (base64ToPCMFloat32 (Some [3, 0, 4, 0, 5, 0]) endingState)
       = Some [3 / 32768, 4 / 32768, 5 / 32768]"
    using v nextChunk_decoded [of endingState] by simp
  have n: "fst (base64ToPCMFloat32 None endingState) = None"
    by (simp add: base64ToPCMFloat32_def)
  note i1 = audio_chunk_in_any_phase [where b = sampleBrowser and i = 1
      and a = "Some [3, 0, 4, 0, 5, 0]" and s = endingState
      and pcm = "[3 / 32768, 4 / 32768, 5 / 32768]"]
  note i2 = audio_chunk_in_any_phase [where b = sampleBrowser and i = 2
      and a = None and s = endingState and pcm = "[]"]
  have h: "fst (base64ToPCMFloat32 (Some [3, 0, 4, 0, 5, 0]) endingState)
         = Some [3 / 32768, 4 / 32768, 5 / 32768]
       \<and> [3 / 32768, 4 / 32768, 5 / 32768] \<noteq> ([] :: real list) \<and> isBuffering endingState
       \<and> length (audioBufferQueue endingState) + 1 < bufferThreshold"
    using v d by (simp add: bufferThreshold_def)
  from i1 h have
    "conversationState
       (handleWebSocketMessage sampleBrowser (AudioChunk 1 (Some [3, 0, 4, 0, 5, 0])) endingState)
       = Speaking"
    "audioBufferQueue
       (handleWebSocketMessage sampleBrowser (AudioChunk 1 (Some [3, 0, 4, 0, 5, 0])) endingState)
       = audioBufferQueue endingState @ [[3 / 32768, 4 / 32768, 5 / 32768]]"
    by blast+
  moreover from i2 n have
    "audioBufferQueue (handleWebSocketMessage sampleBrowser (AudioChunk 2 None) endingState)
       = audioBufferQueue endingState"
    by blast
  ultimately show ?thesis using v d n by simp
qed

text \<open>
  C10 as stated fails for a payload without samples: a first chunk that holds the
  44 header bytes and nothing else decodes to an empty array, the phase becomes
  Speaking, and nothing is queued or scheduled.
\<close>

theorem audio_chunk_in_any_phase_counterexample:
  "conversationState openingState = Processing
   \<and> fst (base64ToPCMFloat32 (Some wavHeader) openingState) = Some []
   \<and> conversationState
        (handleWebSocketMessage sampleBrowser (AudioChunk 0 (Some wavHeader)) openingState)
       = Speaking
   \<and> audioBufferQueue
        (handleWebSocketMessage sampleBrowser (AudioChunk 0 (Some wavHeader)) openingState)
       = []
   \<and> scheduledSources
        (handleWebSocketMessage sampleBrowser (AudioChunk 0 (Some wavHeader)) openingState)
       = Some []"
  by (simp add: model_defs)

end
